theory Spec2Isabelle
  imports Complex_Main "HOL-Library.Multiset"
begin

section \<open>Data model\<close>

text \<open>
  A JavaScript error object, reduced to the two properties the code inspects:
  \<open>e.message\<close> and \<open>e.type\<close> (the latter is set by the transaction library on a
  funding failure and is empty on a plain \<open>new Error(message)\<close>).
\<close>

datatype error = Err (message: string) (etype: string)

abbreviation Error :: "string \<Rightarrow> error" where
  "Error m \<equiv> Err m ''''"

text \<open>
  \<open>new InsufficientFundsError()\<close> of edge-core-js: its name is
  \<open>InsufficientFundsError\<close>, its message is \<open>Insufficient funds\<close>.
\<close>

abbreviation InsufficientFundsError :: error where
  "InsufficientFundsError \<equiv> Err ''Insufficient funds'' ''''"

text \<open>\<open>flowTypes.js\<close>: the record of one private coin (the field \<open>value\<close> is \<open>value_c\<close>).\<close>

record PrivateCoin =
  value_c :: int
  index :: int
  commitment :: string
  serialNumber :: string
  groupId :: int
  isSpend :: bool
  spendTxId :: string

definition SIGMA_COIN :: int where
  "SIGMA_COIN = 100000000"

definition denominations :: "int list" where
  "denominations =
     [5000000, 10000000, 50000000, 100000000, 1000000000, 2500000000, 10000000000]"

text \<open>\<open>zcoinStateExtension.js\<close>: the answers of the chain queries.\<close>

record AnonymitySet =
  blockHash :: string
  serializedCoins :: "string list"

record UsedSerials =
  serials :: "string list"

record CoinGroup =
  denom :: int
  id_g :: int
  anonymitySet :: "string list"

record MintMetadata =
  pubcoin :: string
  groupId_m :: int
  height :: int

text \<open>
  The cryptographic oracle \<open>io.sigmaMint({denomination, privateKey, index})\<close>. It is an
  external collaborator, so it is a parameter; a rejected promise is \<open>Inl\<close>. The hex
  re-encoding of the key that \<open>createPrivateCoin\<close> applies before the call is a fixed
  function of the key and is part of the parameter. So is the rounding of the quotient
  \<open>value / SIGMA_COIN\<close> to a number: the parameter receives the exact quotient.
\<close>

type_synonym sigmaMint = "rat \<Rightarrow> string \<Rightarrow> int \<Rightarrow> error + (string \<times> string)"

section \<open>Integers held in JavaScript numbers\<close>

text \<open>
  A JavaScript number is a double. It holds an integer of magnitude up to \<open>2^53\<close>
  (\<open>9007199254740992\<close>) exactly; a larger integer is rounded to 53 significant bits, to
  the nearer neighbour and, half way between two neighbours, to the one whose last kept
  bit is \<open>0\<close>. \<open>double_exp n\<close> is the number of low bits that are not kept for the
  magnitude \<open>n\<close>, and \<open>to_double x\<close> is the number that stands for the integer \<open>x\<close>.
  An integer whose rounded magnitude reaches \<open>2^1024\<close> becomes \<open>Infinity\<close>, which the type
  \<open>int\<close> does not hold; nothing is said below of integers of that size.
\<close>

fun double_exp :: "nat \<Rightarrow> nat" where
  "double_exp n = (if n < 9007199254740992 then 0 else Suc (double_exp (n div 2)))"

declare double_exp.simps [simp del]

definition to_double :: "int \<Rightarrow> int" where
  "to_double x =
     (let n = nat \<bar>x\<bar>;
          q = 2 ^ double_exp n;
          m = n div q;
          r = n mod q;
          m' = (if 2 * r < q then m else if q < 2 * r then m + 1
                else if even m then m else m + 1)
      in sgn x * int (m' * q))"

text \<open>
  \<open>x++\<close> on a number that holds the integer \<open>x\<close>: the sum \<open>x + 1\<close>, rounded as every
  result of an addition is. From \<open>2^53\<close> the increment gives \<open>2^53\<close> again.
\<close>

definition js_increment :: "int \<Rightarrow> int" where
  "js_increment x = to_double (x + 1)"

section \<open>Coin creation and denomination (\<open>info/sigma/coinUtils.js\<close>)\<close>

definition createPrivateCoin ::
  "sigmaMint \<Rightarrow> int \<Rightarrow> string \<Rightarrow> int \<Rightarrow> error + PrivateCoin" where
  "createPrivateCoin io v privateKey i =
     (case io (of_int v / of_int SIGMA_COIN) privateKey i of
        Inl e \<Rightarrow> Inl e
      | Inr (c, s) \<Rightarrow>
          Inr \<lparr>value_c = v, index = i, commitment = c, serialNumber = s,
               groupId = 0, isSpend = False, spendTxId = ''''\<rparr>)"

text \<open>
  The inner loop \<open>while (bns.gte(value, denom))\<close> of \<open>getMintCommitmentsForValue\<close> for one
  denomination. The decimal strings of \<open>biggystring\<close> are unbounded integers, so \<open>value\<close>
  and \<open>denom\<close> are of type \<open>int\<close> and the comparison and the subtraction are exact.
  \<open>currentIndex\<close> is a number, taken to hold an integer (the caller passes the last index
  in use): \<open>currentIndex++\<close> is \<open>js_increment\<close>, and the incremented number is the index
  of the coin. The value of the coin is \<open>parseInt(denom)\<close>, the number
  that stands for the denomination. The loop runs forever on a denomination that is not
  positive (unless the oracle fails first), so it is a partial function: \<open>None\<close> is "does
  not return".
\<close>

partial_function (option) mintWhile ::
  "sigmaMint \<Rightarrow> string \<Rightarrow> int \<Rightarrow> int \<Rightarrow> int \<Rightarrow> PrivateCoin list
     \<Rightarrow> (error + int \<times> int \<times> PrivateCoin list) option" where
  "mintWhile io privateKey d v currentIndex result =
     (if d \<le> v then
        (case createPrivateCoin io (to_double d) privateKey (js_increment currentIndex) of
           Inl e \<Rightarrow> Some (Inl e)
         | Inr pCoin \<Rightarrow>
             mintWhile io privateKey d (v - d) (js_increment currentIndex) (result @ [pCoin]))
      else Some (Inr (v, currentIndex, result)))"

declare mintWhile.simps [code]

text \<open>
  The outer loop \<open>for (let i = denominations.length - 1; i >= 0; i--)\<close>, over the
  denominations in the order the loop visits them (last array position first). The state
  is \<open>(value, currentIndex, result)\<close>.
\<close>

fun mintLadder ::
  "sigmaMint \<Rightarrow> string \<Rightarrow> int list \<Rightarrow> int \<Rightarrow> int \<Rightarrow> PrivateCoin list
     \<Rightarrow> (error + int \<times> int \<times> PrivateCoin list) option" where
  "mintLadder io privateKey [] v currentIndex result = Some (Inr (v, currentIndex, result))"
| "mintLadder io privateKey (d # ds) v currentIndex result =
     (case mintWhile io privateKey d v currentIndex result of
        None \<Rightarrow> None
      | Some (Inl e) \<Rightarrow> Some (Inl e)
      | Some (Inr (v', currentIndex', result')) \<Rightarrow>
          mintLadder io privateKey ds v' currentIndex' result')"

text \<open>
  \<open>getMintCommitmentsForValue(value, privateKey, currentIndex, io)\<close>. The source reads the
  module constant \<open>denominations\<close>; the ladder is the first parameter here so that it can
  be varied. The function returns \<open>result\<close> only: the remaining value and the final value
  of \<open>currentIndex\<close> are local and are dropped.
\<close>

definition getMintCommitmentsForValue ::
  "int list \<Rightarrow> sigmaMint \<Rightarrow> int \<Rightarrow> string \<Rightarrow> int \<Rightarrow> (error + PrivateCoin list) option" where
  "getMintCommitmentsForValue ladder io v privateKey currentIndex =
     (case mintLadder io privateKey (rev ladder) v currentIndex [] of
        None \<Rightarrow> None
      | Some (Inl e) \<Rightarrow> Some (Inl e)
      | Some (Inr (v', currentIndex', result)) \<Rightarrow> Some (Inr result))"

text \<open>
  The greedy decomposition in the words of the specification: for each denomination in
  turn, as many units as fit, the rest carried to the next denomination.
\<close>

fun greedy_units :: "int list \<Rightarrow> int \<Rightarrow> int list" where
  "greedy_units [] v = []"
| "greedy_units (d # ds) v = replicate (nat (v div d)) d @ greedy_units ds (v mod d)"

fun greedy_remainder :: "int list \<Rightarrow> int \<Rightarrow> int" where
  "greedy_remainder [] v = v"
| "greedy_remainder (d # ds) v = greedy_remainder ds (v mod d)"

section \<open>Restore (\<open>ZcoinEngineExtension.restore\<close>)\<close>

text \<open>
  The scan loop \<open>while (counter++ < 100 && index++ < commitmentCount)\<close>. The state is
  \<open>(counter, index, mintData)\<close>; the result is the state after the loop, with both
  post-increments applied as JavaScript applies them: \<open>counter\<close> is incremented by every
  test, \<open>index\<close> only by a test whose left operand was true. The inner \<open>for ... break\<close>
  over the groups is \<open>find\<close>: the first group whose set holds the commitment.
\<close>

function restore_loop ::
  "sigmaMint \<Rightarrow> string \<Rightarrow> string list \<Rightarrow> CoinGroup list \<Rightarrow> int \<Rightarrow> int \<Rightarrow> int
     \<Rightarrow> PrivateCoin list \<Rightarrow> error + (int \<times> int \<times> PrivateCoin list)" where
  "restore_loop io dataKey usedSerialNumbers latestCoinIds commitmentCount counter idx mintData =
     (if counter < 100 then
        (if idx < commitmentCount then
           (case createPrivateCoin io 100000000 dataKey (idx + 1) of
              Inl e \<Rightarrow> Inl e
            | Inr coin \<Rightarrow>
                (case find (\<lambda>coinInfo. commitment coin \<in> set (anonymitySet coinInfo))
                        latestCoinIds of
                   None \<Rightarrow>
                     restore_loop io dataKey usedSerialNumbers latestCoinIds commitmentCount
                       (counter + 1) (idx + 1) mintData
                 | Some coinInfo \<Rightarrow>
                     restore_loop io dataKey usedSerialNumbers latestCoinIds commitmentCount
                       0 (idx + 1)
                       (mintData @
                        [\<lparr>value_c = denom coinInfo, index = idx + 1,
                          commitment = commitment coin, serialNumber = '''',
                          groupId = id_g coinInfo,
                          isSpend = (serialNumber coin \<in> set usedSerialNumbers),
                          spendTxId = ''''\<rparr>])))
         else Inr (counter + 1, idx + 1, mintData))
      else Inr (counter + 1, idx, mintData))"
  by pat_completeness auto
termination
  by (relation "measure (\<lambda>(io, k, u, g, cc, c, i, m). nat (cc - i))") auto

declare restore_loop.simps [simp del]

subsection \<open>Chain queries and persistent state\<close>

text \<open>
  The chain queries of \<open>zcoinStateExtensions\<close> and the block height are external; their
  answers are fixed for the duration of one operation. A rejected promise is \<open>Inl\<close>. The
  two \<open>*_fails\<close> fields say whether the next write of the coin store, respectively of
  the restore file, fails, and with which error.
\<close>

record World =
  retrieveUsedCoinSerials :: "error + UsedSerials"
  retrieveLatestCoinIds :: "error + CoinGroup list"
  retrieveAnonymitySet :: "int \<Rightarrow> int \<Rightarrow> error + AnonymitySet"
  retrieveMintMetadata :: "(int \<times> string) list \<Rightarrow> error + MintMetadata list"
  getBlockHeight :: int
  writeMintedCoins_fails :: "error option"
  setText_fails :: "error option"

text \<open>
  The content of \<open>restore.json\<close> as the code reads it: text that \<open>JSON.parse\<close> rejects,
  or an object whose \<open>restored\<close> property is truthy or not.
\<close>

datatype restore_json = Unparsable | RestoredFlag bool

text \<open>
  The wallet's state: the coin list held in memory (\<open>zcoinStateExtensions.mintedCoins\<close>),
  the persisted coin store (\<open>mint.json\<close>; \<open>None\<close> when it was never written) and the
  restore file (\<open>None\<close> when \<open>getText\<close> throws or yields the empty string).
\<close>

record Storage =
  mintedCoins :: "PrivateCoin list"
  mintFile :: "PrivateCoin list option"
  restoreFile :: "restore_json option"

text \<open>
  Modelled from the spec: \<open>ZcoinStateExtension.writeMintedCoins\<close> is not among the
  sources. The coin store is "rewritten wholesale on every update": a successful write
  replaces the persisted sequence and the list in memory; a failed write changes nothing.
\<close>

definition writeMintedCoins :: "World \<Rightarrow> PrivateCoin list \<Rightarrow> Storage \<Rightarrow> error + Storage" where
  "writeMintedCoins w coins st =
     (case writeMintedCoins_fails w of
        Some e \<Rightarrow> Inl e
      | None \<Rightarrow> Inr (st\<lparr>mintedCoins := coins, mintFile := Some coins\<rparr>))"

text \<open>\<open>walletLocalEncryptedDisklet.setText(RESTORE_FILE, text)\<close>.\<close>

definition setText_RESTORE_FILE :: "World \<Rightarrow> restore_json \<Rightarrow> Storage \<Rightarrow> error + Storage" where
  "setText_RESTORE_FILE w content st =
     (case setText_fails w of
        Some e \<Rightarrow> Inl e
      | None \<Rightarrow> Inr (st\<lparr>restoreFile := Some content\<rparr>))"

text \<open>The test \<open>restoreJsonStr && JSON.parse(restoreJsonStr).restored\<close> inside its \<open>try\<close>.\<close>

fun restored :: "restore_json option \<Rightarrow> bool" where
  "restored (Some (RestoredFlag b)) = b"
| "restored (Some Unparsable) = False"
| "restored None = False"

subsection \<open>Fetching the anonymity sets\<close>

text \<open>
  The inner loop \<open>for (let i = 0; i < coinInfo.id; i++)\<close> queries the groups
  \<open>1, ..., coinInfo.id\<close> of one denomination, concatenates their commitments and adds
  their number to \<open>commitmentCount\<close>.
\<close>

fun retrieveGroupSets ::
  "World \<Rightarrow> int \<Rightarrow> int list \<Rightarrow> string list \<Rightarrow> int \<Rightarrow> error + (string list \<times> int)" where
  "retrieveGroupSets w d [] aset commitmentCount = Inr (aset, commitmentCount)"
| "retrieveGroupSets w d (i # is) aset commitmentCount =
     (case retrieveAnonymitySet w d i of
        Inl e \<Rightarrow> Inl e
      | Inr anonimitySet \<Rightarrow>
          retrieveGroupSets w d is (aset @ serializedCoins anonimitySet)
            (commitmentCount + int (length (serializedCoins anonimitySet))))"

fun retrieveAllSets ::
  "World \<Rightarrow> CoinGroup list \<Rightarrow> int \<Rightarrow> error + (CoinGroup list \<times> int)" where
  "retrieveAllSets w [] commitmentCount = Inr ([], commitmentCount)"
| "retrieveAllSets w (coinInfo # rest) commitmentCount =
     (case retrieveGroupSets w (denom coinInfo) [1..id_g coinInfo] [] commitmentCount of
        Inl e \<Rightarrow> Inl e
      | Inr (aset, commitmentCount') \<Rightarrow>
          (case retrieveAllSets w rest commitmentCount' of
             Inl e \<Rightarrow> Inl e
           | Inr (rest', commitmentCount'') \<Rightarrow>
               Inr (coinInfo\<lparr>anonymitySet := aset\<rparr> # rest', commitmentCount'')))"

subsection \<open>The whole of \<open>restore\<close>\<close>

text \<open>
  The result is what the promise settles to (\<open>Inl\<close>: rejected) and the state afterwards.
  Everything before the final \<open>try\<close> is outside any handler, so a failing query or
  oracle rejects the promise; a failing write inside the \<open>try\<close> yields \<open>false\<close>.
\<close>

definition restore ::
  "World \<Rightarrow> sigmaMint \<Rightarrow> string \<Rightarrow> Storage \<Rightarrow> (error + bool) \<times> Storage" where
  "restore w io dataKey st =
     (if restored (restoreFile st) then (Inr True, st)
      else
        (case retrieveUsedCoinSerials w of
           Inl e \<Rightarrow> (Inl e, st)
         | Inr usedCoins \<Rightarrow>
        (case retrieveLatestCoinIds w of
           Inl e \<Rightarrow> (Inl e, st)
         | Inr latest \<Rightarrow>
        (case retrieveAllSets w latest 0 of
           Inl e \<Rightarrow> (Inl e, st)
         | Inr (latestCoinIds, commitmentCount) \<Rightarrow>
        (case restore_loop io dataKey (serials usedCoins) latestCoinIds commitmentCount 0 (- 1) [] of
           Inl e \<Rightarrow> (Inl e, st)
         | Inr (counter, idx, mintData) \<Rightarrow>
        (case writeMintedCoins w mintData st of
           Inl e \<Rightarrow> (Inr False, st)
         | Inr st1 \<Rightarrow>
        (case setText_RESTORE_FILE w (RestoredFlag True) st1 of
           Inl e \<Rightarrow> (Inr False, st1)
         | Inr st2 \<Rightarrow> (Inr True, st2))))))))"

section \<open>Group metadata refresh (\<open>ZcoinEngineExtension.getMintMetadataLoop\<close>)\<close>

definition mintsToRetrieve :: "PrivateCoin list \<Rightarrow> (int \<times> string) list" where
  "mintsToRetrieve mintData =
     map (\<lambda>info. (value_c info, commitment info))
       (filter (\<lambda>info. commitment info \<noteq> '''') mintData)"

text \<open>
  \<open>mintsToUpdate[info.commitment] = info\<close> stores a reference to the coin object, and the
  later assignment through it changes the coin inside \<open>mintData\<close>. The reference is the
  position of the coin in \<open>mintData\<close>; a later coin with the same commitment replaces
  an earlier one.
\<close>

fun mintsToUpdate :: "PrivateCoin list \<Rightarrow> nat \<Rightarrow> (string \<rightharpoonup> nat) \<Rightarrow> (string \<rightharpoonup> nat)" where
  "mintsToUpdate [] n m = m"
| "mintsToUpdate (info # rest) n m =
     mintsToUpdate rest (Suc n)
       (if commitment info \<noteq> '''' then m(commitment info \<mapsto> n) else m)"

text \<open>
  \<open>retrievedData.forEach\<close>: an answer for a commitment that is not in \<open>mintsToUpdate\<close>
  assigns to a property of \<open>undefined\<close> and throws; the coins changed before stay
  changed.
\<close>

fun updateGroupIds ::
  "int \<Rightarrow> (string \<rightharpoonup> nat) \<Rightarrow> MintMetadata list \<Rightarrow> PrivateCoin list
     \<Rightarrow> error option \<times> PrivateCoin list" where
  "updateGroupIds h m [] mintData = (None, mintData)"
| "updateGroupIds h m (data # rest) mintData =
     (case m (pubcoin data) of
        None \<Rightarrow> (Some (Error ''Cannot set property groupId of undefined''), mintData)
      | Some n \<Rightarrow>
          updateGroupIds h m rest
            (mintData[n := (mintData ! n)
               \<lparr>groupId := (if h - height data \<ge> 5 then groupId_m data else - 1)\<rparr>]))"

definition getMintMetadataLoop :: "World \<Rightarrow> Storage \<Rightarrow> (error + unit) \<times> Storage" where
  "getMintMetadataLoop w st =
     (let mintData = mintedCoins st in
      if mintsToRetrieve mintData \<noteq> [] then
        (case retrieveMintMetadata w (mintsToRetrieve mintData) of
           Inl e \<Rightarrow> (Inl e, st)
         | Inr retrievedData \<Rightarrow>
             (case updateGroupIds (getBlockHeight w) (mintsToUpdate mintData 0 Map.empty)
                     retrievedData mintData of
                (Some e, mintData') \<Rightarrow> (Inl e, st\<lparr>mintedCoins := mintData'\<rparr>)
              | (None, mintData') \<Rightarrow>
                  (case writeMintedCoins w mintData' (st\<lparr>mintedCoins := mintData'\<rparr>) of
                     Inl e \<Rightarrow> (Inl e, st\<lparr>mintedCoins := mintData'\<rparr>)
                   | Inr st' \<Rightarrow> (Inr (), st'))))
      else (Inr (), st))"

section \<open>The transaction builder (\<open>utils/coinUtils.js\<close>)\<close>

text \<open>
  An unspent output refers to a parsed transaction and a position among its outputs. Of
  the transaction library's objects only what the code reads is kept: the id of a
  transaction and the value of an output. The height of an unspent output is optional
  (\<open>height?: BlockHeight\<close>); \<open>None\<close> is an output without one.
\<close>

record TxOut =
  value_o :: int

record Tx =
  txid :: string
  outputs :: "TxOut list"

record Utxo =
  tx :: Tx
  index_u :: int
  height_u :: "int option"

text \<open>After the defaults of the destructuring pattern: \<open>CPFP = ''\<close>, \<open>CPFPlimit = 1\<close>, ...\<close>

record TxOptions =
  utxos_o :: "Utxo list option"
  CPFP :: string
  CPFPlimit :: int
  subtractFee :: bool
  setRBF :: bool

record StandardOutput =
  address :: string
  value_s :: int

text \<open>\<open>xs[i]\<close> of JavaScript: \<open>undefined\<close> outside the array.\<close>

definition js_nth :: "'a list \<Rightarrow> int \<Rightarrow> 'a option" where
  "js_nth xs i = (if 0 \<le> i \<and> i < int (length xs) then Some (xs ! nat i) else None)"

text \<open>
  \<open>sumUtxos\<close>: \<open>utxos.reduce((s, {tx, index}) => s + parseInt(tx.outputs[index].value), 0)\<close>.
  Reading \<open>value\<close> of a missing output throws.
\<close>

fun sumUtxos_from :: "int \<Rightarrow> Utxo list \<Rightarrow> error + int" where
  "sumUtxos_from s [] = Inr s"
| "sumUtxos_from s (u # us) =
     (case js_nth (outputs (tx u)) (index_u u) of
        None \<Rightarrow> Inl (Error ''Cannot read property value of undefined'')
      | Some out \<Rightarrow> sumUtxos_from (s + value_o out) us)"

definition sumUtxos :: "Utxo list \<Rightarrow> error + int" where
  "sumUtxos utxos = sumUtxos_from 0 utxos"

subsection \<open>JavaScript numbers, \<open>parseInt\<close> and \<open>sort\<close>\<close>

datatype jsnum = NaN | Num int

fun js_minus :: "jsnum \<Rightarrow> jsnum \<Rightarrow> jsnum" where
  "js_minus (Num a) (Num b) = Num (a - b)"
| "js_minus _ _ = NaN"

definition is_digit :: "char \<Rightarrow> bool" where
  "is_digit c = (48 \<le> (of_char c :: nat) \<and> (of_char c :: nat) \<le> 57)"

definition digit_val :: "char \<Rightarrow> int" where
  "digit_val c = int (of_char c) - 48"

text \<open>
  \<open>parseInt\<close> on a string, radix 10: leading blanks, an optional sign, then the longest
  run of decimal digits; \<open>NaN\<close> when there is no digit. (The prefix \<open>0x\<close> is not
  modelled.)
\<close>

definition parseInt :: "string \<Rightarrow> jsnum" where
  "parseInt s =
     (let t = dropWhile (\<lambda>c. c = CHR '' '') s;
          neg = (t \<noteq> [] \<and> hd t = CHR ''-'');
          u = (if t \<noteq> [] \<and> (hd t = CHR ''-'' \<or> hd t = CHR ''+'') then tl t else t);
          ds = takeWhile is_digit u
      in if ds = [] then NaN
         else Num ((if neg then - 1 else 1) * foldl (\<lambda>a c. 10 * a + digit_val c) 0 ds))"

text \<open>
  \<open>parseInt(x)\<close> first converts \<open>x\<close> to a string. An output object of the transaction
  library has no \<open>toString\<close> of its own, so it converts as every plain object does;
  a missing output is \<open>undefined\<close>.
\<close>

definition toString_TxOut :: "TxOut option \<Rightarrow> string" where
  "toString_TxOut out = (case out of None \<Rightarrow> ''undefined'' | Some x \<Rightarrow> ''[object Object]'')"

text \<open>
  The comparator of the CPFP branch:
  \<open>(a, b) => parseInt(b.tx.outputs[b.index]) - parseInt(a.tx.outputs[a.index])\<close>.
  It parses the output objects themselves, not their \<open>value\<close>.
\<close>

definition cpfp_compare :: "Utxo \<Rightarrow> Utxo \<Rightarrow> jsnum" where
  "cpfp_compare a b =
     js_minus (parseInt (toString_TxOut (js_nth (outputs (tx b)) (index_u b))))
              (parseInt (toString_TxOut (js_nth (outputs (tx a)) (index_u a))))"

text \<open>
  \<open>Array.prototype.sort\<close> with a comparator: a stable sort that puts \<open>x\<close> after \<open>y\<close>
  only when the comparator's result for \<open>(x, y)\<close> is positive; a result of \<open>NaN\<close> counts
  as \<open>+0\<close>.
\<close>

fun js_positive :: "jsnum \<Rightarrow> bool" where
  "js_positive NaN = False"
| "js_positive (Num n) = (0 < n)"

fun js_insert :: "('a \<Rightarrow> 'a \<Rightarrow> jsnum) \<Rightarrow> 'a \<Rightarrow> 'a list \<Rightarrow> 'a list" where
  "js_insert cmp x [] = [x]"
| "js_insert cmp x (y # ys) =
     (if js_positive (cmp x y) then y # js_insert cmp x ys else x # y # ys)"

definition js_sort :: "('a \<Rightarrow> 'a \<Rightarrow> jsnum) \<Rightarrow> 'a list \<Rightarrow> 'a list" where
  "js_sort cmp xs = foldr (js_insert cmp) xs []"

text \<open>\<open>xs.slice(0, n)\<close>: a negative \<open>n\<close> counts from the end.\<close>

definition js_slice0 :: "'a list \<Rightarrow> int \<Rightarrow> 'a list" where
  "js_slice0 xs n = (if n < 0 then take (nat (int (length xs) + n)) xs else take (nat n) xs)"

subsection \<open>\<open>createTX\<close> up to the call of \<open>mtx.fund\<close>\<close>

text \<open>
  \<open>toBcoinFormat(address, network)\<close> ends in the address parser of the transaction
  library, which throws on a string that is no address of the network. The parser is an
  external collaborator and a parameter of \<open>createTX\<close> here; an address object is
  represented by a string.
\<close>

type_synonym toBcoinFormat = "string \<Rightarrow> error + string"

text \<open>
  \<open>outputs.forEach(({ address, value }) => { ... mtx.addOutput(addressScript, value) })\<close>:
  every address is converted, and the library's \<open>addOutput\<close> asserts that the value is a
  safe integer that is not negative. The first failure ends the loop.
\<close>

fun addOutputs :: "toBcoinFormat \<Rightarrow> StandardOutput list \<Rightarrow> error + StandardOutput list" where
  "addOutputs conv [] = Inr []"
| "addOutputs conv (out # outs) =
     (case conv (address out) of
        Inl e \<Rightarrow> Inl e
      | Inr a \<Rightarrow>
          if 0 \<le> value_s out \<and> value_s out \<le> 9007199254740991 then
            (case addOutputs conv outs of
               Inl e \<Rightarrow> Inl e
             | Inr added \<Rightarrow> Inr (\<lparr>address = a, value_s = value_s out\<rparr> # added))
          else Inl (Error ''Value must be a uint64.''))"

text \<open>
  \<open>primitives.Coin.fromTX(tx, index, height)\<close> of the transaction library asserts that
  \<open>index\<close> and \<open>height\<close> are numbers and that \<open>index\<close> is a position among the outputs of
  \<open>tx\<close>; the coin takes the value of that output. An unspent output without a height
  therefore makes \<open>createTX\<close> throw. The hash of the coin, which the code replaces by the
  network's own serialization when there is one, is represented by the id of the
  transaction.
\<close>

record Coin =
  coin_txid :: string
  coin_index :: int
  coin_height :: int
  coin_value :: int

definition Coin_fromTX :: "Tx \<Rightarrow> int \<Rightarrow> int option \<Rightarrow> error + Coin" where
  "Coin_fromTX t i h =
     (case h of
        None \<Rightarrow> Inl (Error ''Assertion failed.'')
      | Some n \<Rightarrow>
          (case js_nth (outputs t) i of
             None \<Rightarrow> Inl (Error ''Assertion failed.'')
           | Some out \<Rightarrow>
               Inr \<lparr>coin_txid = txid t, coin_index = i, coin_height = n,
                    coin_value = value_o out\<rparr>))"

text \<open>\<open>utxos.map(({ tx, index, height }) => ...)\<close>, ended by the first assertion that fails.\<close>

fun createCoins :: "Utxo list \<Rightarrow> error + Coin list" where
  "createCoins [] = Inr []"
| "createCoins (u # us) =
     (case Coin_fromTX (tx u) (index_u u) (height_u u) of
        Inl e \<Rightarrow> Inl e
      | Inr coin \<Rightarrow>
          (case createCoins us of
             Inl e \<Rightarrow> Inl e
           | Inr coins \<Rightarrow> Inr (coin # coins)))"

text \<open>
  What \<open>createTX\<close> hands to the transaction library: the outputs added to the transaction,
  the coins offered for funding, the change address and the \<open>subtractFee\<close> flag. Funding
  itself, the RBF sequence numbers and the context check are the library's and are not
  modelled. The test \<open>!mtx.outputs || mtx.outputs.length === 0\<close> is about the transaction
  created two lines above, which has no outputs yet, so it is always true.
\<close>

record FundRequest =
  fund_outputs :: "StandardOutput list"
  fund_coins :: "Coin list"
  fund_changeAddress :: string
  fund_subtractFee :: bool

text \<open>
  The part of \<open>createTX\<close> after the CPFP block, for the unspent outputs, the outputs and
  the flag that the block leaves: the test for outputs, the outputs added, the coins
  created, and the change address converted for \<open>mtx.fund\<close>, in the order of the source.
\<close>

definition createTX_fund ::
  "toBcoinFormat \<Rightarrow> Utxo list \<Rightarrow> StandardOutput list \<Rightarrow> string \<Rightarrow> bool \<Rightarrow> error + FundRequest" where
  "createTX_fund conv utxos outs changeAddress subFee =
     (if outs = [] then Inl (Error ''No outputs available.'')
      else
        (case addOutputs conv outs of
           Inl e \<Rightarrow> Inl e
         | Inr added \<Rightarrow>
             (case createCoins utxos of
                Inl e \<Rightarrow> Inl e
              | Inr coins \<Rightarrow>
                  (case conv changeAddress of
                     Inl e \<Rightarrow> Inl e
                   | Inr change \<Rightarrow>
                       Inr \<lparr>fund_outputs = added, fund_coins = coins,
                            fund_changeAddress = change, fund_subtractFee = subFee\<rparr>))))"

definition createTX ::
  "toBcoinFormat \<Rightarrow> Utxo list \<Rightarrow> StandardOutput list \<Rightarrow> string \<Rightarrow> TxOptions
     \<Rightarrow> error + FundRequest" where
  "createTX conv utxos outs changeAddress opts =
     (if CPFP opts \<noteq> '''' then
        (let utxos1 = filter (\<lambda>u. txid (tx u) = CPFP opts) utxos;
             utxos2 = js_sort cpfp_compare utxos1;
             utxos3 = (if CPFPlimit opts \<noteq> 0 then js_slice0 utxos2 (CPFPlimit opts) else utxos2)
         in case sumUtxos utxos3 of
              Inl e \<Rightarrow> Inl e
            | Inr v \<Rightarrow>
                createTX_fund conv utxos3 (outs @ [\<lparr>address = changeAddress, value_s = v\<rparr>])
                  changeAddress True)
      else createTX_fund conv utxos outs changeAddress (subtractFee opts))"

section \<open>Minting (\<open>ZcoinEngineExtension.makeMint\<close> and \<open>mint\<close>)\<close>

text \<open>
  A spend target: an absent or empty \<open>publicAddress\<close> is \<open>''\<close>, an absent or empty
  \<open>nativeAmount\<close> is \<open>None\<close> (both are falsy), \<open>otherParams.script\<close> is optional.
\<close>

record SpendTarget =
  publicAddress :: string
  nativeAmount :: "int option"
  script :: "string option"

record EdgeSpendInfo =
  spendTargets :: "SpendTarget list"

datatype Output = AddressOutput string int | ScriptOutput string int

record MTXOutput =
  address_m :: "string option"
  script_m :: string
  value_m :: int

record MTX =
  outputs_m :: "MTXOutput list"
  fee_m :: int

text \<open>
  The fields of the built transaction that depend on the coins. (\<open>ourReceiveAddresses\<close>,
  \<open>nativeAmount\<close>, \<open>edgeSpendInfo\<close> and \<open>rate\<close> are computed by collaborators from the
  same inputs and are left out.)
\<close>

record EdgeTransaction =
  txJson :: MTX
  isSpend_tx :: bool
  mintsForSave :: "PrivateCoin list"
  networkFee :: int

text \<open>The collaborators of the engine that minting calls.\<close>

record Engine =
  getUTXOs :: "Utxo list"
  getLastPrivateCoinIndex :: int
  dataKey_e :: string
  keyManager_createTX :: "Output list \<Rightarrow> Utxo list \<Rightarrow> TxOptions \<Rightarrow> error + MTX"
  signTx :: "EdgeTransaction \<Rightarrow> error + EdgeTransaction"
  broadcastTx :: "EdgeTransaction \<Rightarrow> error + EdgeTransaction"
  saveTx :: "EdgeTransaction \<Rightarrow> error + unit"

definition OP_SIGMA_MINT :: string where
  "OP_SIGMA_MINT = ''c3''"

text \<open>\<open>nativeAmount || '0'\<close>.\<close>

definition amountOf :: "SpendTarget \<Rightarrow> int" where
  "amountOf t = (case nativeAmount t of None \<Rightarrow> 0 | Some a \<Rightarrow> a)"

text \<open>
  The loop \<open>for (const spendTarget of spendTargets)\<close> of \<open>makeMint\<close>. The state is
  \<open>(outputs, mints)\<close>: \<open>outputs\<close> grows, \<open>mints\<close> is assigned anew for every target, and
  every call starts from the same \<open>currentMaxIndex\<close>.
\<close>

fun makeMint_targets ::
  "sigmaMint \<Rightarrow> string \<Rightarrow> int \<Rightarrow> SpendTarget list \<Rightarrow> Output list \<Rightarrow> PrivateCoin list
     \<Rightarrow> (error + Output list \<times> PrivateCoin list) option" where
  "makeMint_targets io key currentMaxIndex [] outs mints = Some (Inr (outs, mints))"
| "makeMint_targets io key currentMaxIndex (t # ts) outs mints =
     (case getMintCommitmentsForValue denominations io (amountOf t) key currentMaxIndex of
        None \<Rightarrow> None
      | Some (Inl e) \<Rightarrow> Some (Inl e)
      | Some (Inr ms) \<Rightarrow>
          makeMint_targets io key currentMaxIndex ts
            (outs @
               (if publicAddress t \<noteq> '''' \<and> nativeAmount t \<noteq> None
                then map (\<lambda>coin. AddressOutput (publicAddress t) (value_c coin)) ms
                else (case script t of
                        Some sc \<Rightarrow> map (\<lambda>coin. ScriptOutput sc (value_c coin)) ms
                      | None \<Rightarrow> [])))
            (map (\<lambda>coin. coin\<lparr>groupId := - 1, isSpend := False, spendTxId := ''''\<rparr>) ms))"

text \<open>
  The loop \<open>for (let i = 0; i < outputs.length; i++)\<close> that writes the commitments into
  the transaction's outputs. A missing output or a missing coin throws.
\<close>

fun patchOutputs :: "nat list \<Rightarrow> PrivateCoin list \<Rightarrow> MTXOutput list \<Rightarrow> error + MTXOutput list" where
  "patchOutputs [] mints outs = Inr outs"
| "patchOutputs (i # is) mints outs =
     (if i < length outs \<and> i < length mints then
        patchOutputs is mints
          (outs[i := (outs ! i)\<lparr>address_m := None,
                                script_m := OP_SIGMA_MINT @ commitment (mints ! i)\<rparr>])
      else Inl (Error ''Cannot read property of undefined''))"

text \<open>The body of the \<open>try\<close> of \<open>makeMint\<close>.\<close>

definition makeMint_try ::
  "Engine \<Rightarrow> sigmaMint \<Rightarrow> EdgeSpendInfo \<Rightarrow> TxOptions \<Rightarrow> Utxo list
     \<Rightarrow> (error + EdgeTransaction) option" where
  "makeMint_try eng io info opts utxos =
     (case makeMint_targets io (dataKey_e eng) (getLastPrivateCoinIndex eng)
             (spendTargets info) [] [] of
        None \<Rightarrow> None
      | Some (Inl e) \<Rightarrow> Some (Inl e)
      | Some (Inr (outs, mints)) \<Rightarrow>
          (case keyManager_createTX eng outs utxos opts of
             Inl e \<Rightarrow> Some (Inl e)
           | Inr bcoinTx \<Rightarrow>
               (case patchOutputs [0..<length outs] mints (outputs_m bcoinTx) of
                  Inl e \<Rightarrow> Some (Inl e)
                | Inr patched \<Rightarrow>
                    Some (Inr \<lparr>txJson = bcoinTx\<lparr>outputs_m := patched\<rparr>, isSpend_tx = False,
                               mintsForSave = mints, networkFee = fee_m bcoinTx\<rparr>))))"

text \<open>The \<open>catch\<close> of \<open>makeMint\<close>: a funding error is thrown again under another message.\<close>

definition makeMint_catch :: "error + EdgeTransaction \<Rightarrow> error + EdgeTransaction" where
  "makeMint_catch r =
     (case r of
        Inl e \<Rightarrow> (if etype e = ''FundingError'' then Inl (Error ''InsufficientFundsError'') else Inl e)
      | Inr t \<Rightarrow> Inr t)"

definition makeMint ::
  "Engine \<Rightarrow> sigmaMint \<Rightarrow> EdgeSpendInfo \<Rightarrow> TxOptions \<Rightarrow> (error + EdgeTransaction) option" where
  "makeMint eng io info opts =
     (if CPFP opts = '''' \<and> spendTargets info = [] then
        Some (Inl (Error ''Need to provide Spend Targets''))
      else
        (let totalAmountToSend = sum_list (map amountOf (spendTargets info));
             utxos = (case utxos_o opts of None \<Rightarrow> getUTXOs eng | Some us \<Rightarrow> us)
         in case sumUtxos utxos of
              Inl e \<Rightarrow> Some (Inl e)
            | Inr available \<Rightarrow>
                if available < totalAmountToSend then Some (Inl InsufficientFundsError)
                else map_option makeMint_catch (makeMint_try eng io info opts utxos)))"

subsection \<open>The retry loop of \<open>mint\<close>\<close>

text \<open>
  The loop \<open>while (tryAgain)\<close>. The call of \<open>makeMint\<close> is the parameter \<open>mk\<close>. The result is
  the transaction (\<open>None\<close> after \<open>return\<close> from the handler) and, as a record of what was
  done, the amount of the first spend target at every call of \<open>mk\<close>. The handler reads
  \<open>edgeSpendInfo.spendTargets[0].nativeAmount\<close>, which throws out of \<open>mint\<close> when there is
  no spend target.
\<close>

definition firstAmount :: "EdgeSpendInfo \<Rightarrow> int" where
  "firstAmount info = (case spendTargets info of [] \<Rightarrow> 0 | t # ts \<Rightarrow> amountOf t)"

definition lowerFirstAmount :: "EdgeSpendInfo \<Rightarrow> EdgeSpendInfo" where
  "lowerFirstAmount info =
     (case spendTargets info of
        [] \<Rightarrow> info
      | t # ts \<Rightarrow>
          info\<lparr>spendTargets := t\<lparr>nativeAmount := Some (amountOf t - denominations ! 0)\<rparr> # ts\<rparr>)"

function mint_loop ::
  "(EdgeSpendInfo \<Rightarrow> (error + EdgeTransaction) option) \<Rightarrow> EdgeSpendInfo \<Rightarrow> int list
     \<Rightarrow> (error + EdgeTransaction option \<times> int list) option" where
  "mint_loop mk info tried =
     (case mk info of
        None \<Rightarrow> None
      | Some (Inr t) \<Rightarrow> Some (Inr (Some t, tried @ [firstAmount info]))
      | Some (Inl e) \<Rightarrow>
          (if message e = ''InsufficientFundsError'' then
             (if spendTargets info = [] then
                Some (Inl (Error ''Cannot read property nativeAmount of undefined''))
              else if denominations ! 0 < firstAmount info then
                mint_loop mk (lowerFirstAmount info) (tried @ [firstAmount info])
              else Some (Inr (None, tried @ [firstAmount info])))
           else Some (Inr (None, tried @ [firstAmount info]))))"
  by pat_completeness auto
termination
proof (relation "measure (\<lambda>(mk, info, tried). nat (firstAmount info))")
  show "wf (measure (\<lambda>(mk, info, tried). nat (firstAmount info)))" by simp
next
  fix mk :: "EdgeSpendInfo \<Rightarrow> (error + EdgeTransaction) option"
    and info :: EdgeSpendInfo and tried :: "int list"
  assume ne: "spendTargets info \<noteq> []" and gt: "denominations ! 0 < firstAmount info"
  from ne obtain t ts where ts: "spendTargets info = t # ts" by (cases "spendTargets info") auto
  have "firstAmount (lowerFirstAmount info) = firstAmount info - 5000000"
    using ts by (simp add: firstAmount_def lowerFirstAmount_def amountOf_def denominations_def)
  moreover have "5000000 < firstAmount info" using gt by (simp add: denominations_def)
  ultimately show "((mk, lowerFirstAmount info, tried @ [firstAmount info]), (mk, info, tried))
        \<in> measure (\<lambda>(mk, info, tried). nat (firstAmount info))"
    by simp
qed

declare mint_loop.simps [simp del]

text \<open>
  What \<open>mint\<close> did: the amounts tried and how it ended. \<open>mint\<close> itself returns nothing.
\<close>

datatype mint_end =
    Abandoned
  | SignFailed error
  | BroadcastFailed error
  | SaveFailed error
  | Saved

definition mint_with ::
  "(EdgeSpendInfo \<Rightarrow> (error + EdgeTransaction) option) \<Rightarrow> Engine \<Rightarrow> EdgeSpendInfo
     \<Rightarrow> (error + int list \<times> mint_end) option" where
  "mint_with mk eng info =
     (case mint_loop mk info [] of
        None \<Rightarrow> None
      | Some (Inl e) \<Rightarrow> Some (Inl e)
      | Some (Inr (None, tried)) \<Rightarrow> Some (Inr (tried, Abandoned))
      | Some (Inr (Some t, tried)) \<Rightarrow>
          (case signTx eng t of
             Inl e \<Rightarrow> Some (Inr (tried, SignFailed e))
           | Inr t1 \<Rightarrow>
               (case broadcastTx eng t1 of
                  Inl e \<Rightarrow> Some (Inr (tried, BroadcastFailed e))
                | Inr t2 \<Rightarrow>
                    (case saveTx eng t2 of
                       Inl e \<Rightarrow> Some (Inr (tried, SaveFailed e))
                     | Inr u \<Rightarrow> Some (Inr (tried, Saved))))))"

definition default_TxOptions :: TxOptions where
  "default_TxOptions =
     \<lparr>utxos_o = None, CPFP = '''', CPFPlimit = 1, subtractFee = False, setRBF = False\<rparr>"

definition mint :: "Engine \<Rightarrow> sigmaMint \<Rightarrow> EdgeSpendInfo \<Rightarrow> (error + int list \<times> mint_end) option" where
  "mint eng io info = mint_with (\<lambda>i. makeMint eng io i default_TxOptions) eng info"

section \<open>Spend selection (\<open>ZcoinEngineExtension.makeSpend\<close>)\<close>

text \<open>
  The filter \<open>info.groupId && info.groupId !== -1 && !info.isSpend\<close>: the first conjunct
  is a truthiness test, false for the number \<open>0\<close>.
\<close>

definition approvedMints :: "PrivateCoin list \<Rightarrow> PrivateCoin list" where
  "approvedMints mintData =
     filter (\<lambda>info. groupId info \<noteq> 0 \<and> groupId info \<noteq> - 1 \<and> \<not> isSpend info) mintData"

text \<open>
  Modelled from the spec: the loop inside \<open>getMintsToSpend\<close>, which is not among the
  sources. It goes through the coins in the order given and takes them until their values
  cover what is needed; if they never do, it takes nothing.
\<close>

fun takeCovering :: "PrivateCoin list \<Rightarrow> int \<Rightarrow> PrivateCoin list \<Rightarrow> PrivateCoin list" where
  "takeCovering [] need taken = []"
| "takeCovering (c # cs) need taken =
     (if need \<le> value_c c then taken @ [c]
      else takeCovering cs (need - value_c c) (taken @ [c]))"

text \<open>
  Modelled from the spec: \<open>getMintsToSpend\<close> of \<open>./coinOperations\<close> is not among the
  sources. The specification asks for a subset whose summed value is at least the target,
  or an empty result if there is none, chosen deterministically and with as few coins as
  possible. The model takes the coins in order of descending value until the target is
  covered, and nothing if it never is.
\<close>

definition getMintsToSpend :: "PrivateCoin list \<Rightarrow> int \<Rightarrow> PrivateCoin list" where
  "getMintsToSpend approved target =
     takeCovering (sort_key (\<lambda>c. - value_c c) approved) target []"

text \<open>
  \<open>makeSpend\<close> up to the choice of the coins to spend (the construction of the spend
  transaction from them is done by code that is not among the sources).
\<close>

definition makeSpend_mintsToBeSpend ::
  "PrivateCoin list \<Rightarrow> EdgeSpendInfo \<Rightarrow> TxOptions \<Rightarrow> error + PrivateCoin list" where
  "makeSpend_mintsToBeSpend mintData info opts =
     (if CPFP opts = '''' \<and> spendTargets info = [] then
        Inl (Error ''Need to provide Spend Targets'')
      else
        (let totalAmountToSend = sum_list (map amountOf (spendTargets info));
             mintsToBeSpend = getMintsToSpend (approvedMints mintData) totalAmountToSend
         in if mintsToBeSpend = [] then Inl (Error ''InsufficientFundsError'')
            else Inr mintsToBeSpend))"

section \<open>Predicates and sample data used by the proofs\<close>

text \<open>The oracle answers every request made under the given key.\<close>

definition oracle_total :: "sigmaMint \<Rightarrow> string \<Rightarrow> bool" where
  "oracle_total io k = (\<forall>den i. \<exists>p. io den k i = Inr p)"

text \<open>
  What one run of the inner loop does to the state \<open>(value, currentIndex, result)\<close> when it
  returns normally: it appends coins of the one denomination and increments the index
  once for each.
\<close>

definition mw_post ::
  "int \<Rightarrow> int \<Rightarrow> int \<Rightarrow> PrivateCoin list \<Rightarrow> (error + int \<times> int \<times> PrivateCoin list) \<Rightarrow> bool" where
  "mw_post d v i r y =
     (case y of
        Inl e \<Rightarrow> True
      | Inr (v', i', r') \<Rightarrow>
          \<exists>cs. r' = r @ cs \<and> i' = (js_increment ^^ length cs) i
             \<and> v' = v - d * int (length cs) \<and> v' < d
             \<and> v' \<le> v \<and> (0 \<le> v \<longrightarrow> 0 \<le> v')
             \<and> (\<forall>n < length cs. index (cs ! n) = (js_increment ^^ Suc n) i
                                  \<and> value_c (cs ! n) = to_double d))"

text \<open>
  The same for the loop over a list of denominations. What is said of the values of the
  coins is for denominations that a number holds exactly.
\<close>

definition ml_post ::
  "int list \<Rightarrow> int \<Rightarrow> int \<Rightarrow> PrivateCoin list \<Rightarrow> (error + int \<times> int \<times> PrivateCoin list) \<Rightarrow> bool" where
  "ml_post ds v i r y =
     (case y of
        Inl e \<Rightarrow> True
      | Inr (v', i', r') \<Rightarrow>
          \<exists>cs. r' = r @ cs \<and> i' = (js_increment ^^ length cs) i
             \<and> ((\<forall>d \<in> set ds. to_double d = d) \<longrightarrow> sum_list (map value_c cs) = v - v')
             \<and> v' \<le> v \<and> (0 \<le> v \<longrightarrow> 0 \<le> v')
             \<and> (\<forall>d \<in> set ds. v' < d)
             \<and> (\<forall>n < length cs. index (cs ! n) = (js_increment ^^ Suc n) i)
             \<and> ((\<forall>d \<in> set ds. 0 < d \<and> to_double d = d) \<and> 0 \<le> v \<longrightarrow>
                  map value_c cs = greedy_units ds v \<and> v' = greedy_remainder ds v))"

text \<open>A small oracle for concrete runs: distinct commitments and serials for the first indices.\<close>

definition sample_sigmaMint :: sigmaMint where
  "sample_sigmaMint den key i =
     (if i = 0 then Inr (''c0'', ''s0'')
      else if i = 1 then Inr (''c1'', ''s1'')
      else if i = 2 then Inr (''c2'', ''s2'')
      else if i = 3 then Inr (''c3'', ''s3'')
      else Inr (''cN'', ''sN''))"

text \<open>
  What one pass of the body of the restore scan records for the index \<open>j\<close>: the coin
  pushed to \<open>mintData\<close>, or \<open>None\<close> when no group holds the candidate's commitment (a miss).
\<close>

definition scan_hit ::
  "sigmaMint \<Rightarrow> string \<Rightarrow> string list \<Rightarrow> CoinGroup list \<Rightarrow> int \<Rightarrow> PrivateCoin option" where
  "scan_hit io dataKey usedSerialNumbers latestCoinIds j =
     (case createPrivateCoin io 100000000 dataKey j of
        Inl e \<Rightarrow> None
      | Inr coin \<Rightarrow>
          (case find (\<lambda>coinInfo. commitment coin \<in> set (anonymitySet coinInfo)) latestCoinIds of
             None \<Rightarrow> None
           | Some coinInfo \<Rightarrow>
               Some \<lparr>value_c = denom coinInfo, index = j,
                     commitment = commitment coin, serialNumber = '''',
                     groupId = id_g coinInfo,
                     isSpend = (serialNumber coin \<in> set usedSerialNumbers),
                     spendTxId = ''''\<rparr>))"

text \<open>The number of published commitments: what \<open>commitmentCount\<close> holds after the fetch.\<close>

definition total_commitments :: "CoinGroup list \<Rightarrow> int" where
  "total_commitments latestCoinIds = (\<Sum>coinInfo \<leftarrow> latestCoinIds. int (length (anonymitySet coinInfo)))"

text \<open>
  A sample chain at height \<open>100\<close>: one denomination with one group that holds the
  wallet's commitment for index \<open>1\<close> and a foreign one; the serial of that coin is
  published as used. The mint of \<open>c1\<close> is 1 block deep, the mint of \<open>c2\<close> 10 blocks.
\<close>

definition sample_World :: World where
  "sample_World =
     \<lparr>retrieveUsedCoinSerials = Inr \<lparr>serials = [''s1'']\<rparr>,
      retrieveLatestCoinIds = Inr [\<lparr>denom = 100000000, id_g = 1, anonymitySet = []\<rparr>],
      retrieveAnonymitySet = (\<lambda>d i. Inr \<lparr>blockHash = ''b'', serializedCoins = [''c1'', ''zz'']\<rparr>),
      retrieveMintMetadata =
        (\<lambda>ms. Inr (filter (\<lambda>data. pubcoin data \<in> set (map snd ms))
                     [\<lparr>pubcoin = ''c1'', groupId_m = 1, height = 99\<rparr>,
                      \<lparr>pubcoin = ''c2'', groupId_m = 4, height = 90\<rparr>])),
      getBlockHeight = 100,
      writeMintedCoins_fails = None,
      setText_fails = None\<rparr>"

definition sample_groups :: "CoinGroup list" where
  "sample_groups = [\<lparr>denom = 100000000, id_g = 1, anonymitySet = [''c1'', ''zz'']\<rparr>]"

definition empty_Storage :: Storage where
  "empty_Storage = \<lparr>mintedCoins = [], mintFile = None, restoreFile = None\<rparr>"

definition sample_restored_coin :: PrivateCoin where
  "sample_restored_coin =
     \<lparr>value_c = 100000000, index = 1, commitment = ''c1'', serialNumber = '''',
      groupId = 1, isSpend = True, spendTxId = ''''\<rparr>"

text \<open>
  What the fetch of \<open>restore\<close> leaves in \<open>coinInfo.anonymitySet\<close>: the commitments of
  the groups \<open>ids\<close> of one denomination, concatenated; and the list of entries with these
  sets. The \<open>id\<close> of an entry stays the latest group id of its denomination.
\<close>

definition merged_sets :: "World \<Rightarrow> int \<Rightarrow> int list \<Rightarrow> string list" where
  "merged_sets w d ids =
     concat (map (\<lambda>i. case retrieveAnonymitySet w d i of
                          Inl e \<Rightarrow> []
                        | Inr anonimitySet \<Rightarrow> serializedCoins anonimitySet) ids)"

definition merged_groups :: "World \<Rightarrow> CoinGroup list \<Rightarrow> CoinGroup list" where
  "merged_groups w latest =
     map (\<lambda>coinInfo.
            coinInfo\<lparr>anonymitySet := merged_sets w (denom coinInfo) [1..id_g coinInfo]\<rparr>)
         latest"

text \<open>
  A chain whose one denomination has two groups: the wallet's commitment for index \<open>1\<close>
  is in group \<open>1\<close>, group \<open>2\<close> holds a foreign commitment only. No serial is used.
\<close>

definition two_group_World :: World where
  "two_group_World =
     \<lparr>retrieveUsedCoinSerials = Inr \<lparr>serials = []\<rparr>,
      retrieveLatestCoinIds = Inr [\<lparr>denom = 100000000, id_g = 2, anonymitySet = []\<rparr>],
      retrieveAnonymitySet =
        (\<lambda>d i. if i = 1 then Inr \<lparr>blockHash = ''b1'', serializedCoins = [''c1'']\<rparr>
               else Inr \<lparr>blockHash = ''b2'', serializedCoins = [''zz'']\<rparr>),
      retrieveMintMetadata = (\<lambda>ms. Inr []),
      getBlockHeight = 100,
      writeMintedCoins_fails = None,
      setText_fails = None\<rparr>"

definition two_group_restored_coin :: PrivateCoin where
  "two_group_restored_coin =
     \<lparr>value_c = 100000000, index = 1, commitment = ''c1'', serialNumber = '''',
      groupId = 2, isSpend = False, spendTxId = ''''\<rparr>"

text \<open>The sample chain with a disk that refuses the restore file.\<close>

definition failing_setText_World :: World where
  "failing_setText_World = sample_World\<lparr>setText_fails := Some (Error ''disk full'')\<rparr>"

text \<open>Two stored coins that wait for their group: the mints of \<open>c1\<close> and \<open>c2\<close>.\<close>

definition pending_Storage :: Storage where
  "pending_Storage =
     \<lparr>mintedCoins =
        [\<lparr>value_c = 100000000, index = 1, commitment = ''c1'', serialNumber = ''s1'',
          groupId = - 1, isSpend = False, spendTxId = ''''\<rparr>,
         \<lparr>value_c = 50000000, index = 2, commitment = ''c2'', serialNumber = ''s2'',
          groupId = - 1, isSpend = False, spendTxId = ''''\<rparr>],
      mintFile = None, restoreFile = Some (RestoredFlag True)\<rparr>"

definition refreshed_coins :: "PrivateCoin list" where
  "refreshed_coins =
     [\<lparr>value_c = 100000000, index = 1, commitment = ''c1'', serialNumber = ''s1'',
       groupId = - 1, isSpend = False, spendTxId = ''''\<rparr>,
      \<lparr>value_c = 50000000, index = 2, commitment = ''c2'', serialNumber = ''s2'',
       groupId = 4, isSpend = False, spendTxId = ''''\<rparr>]"

text \<open>
  How the retry loop of \<open>mint\<close> treats the outcome of one call of \<open>makeMint\<close> made with
  the first amount \<open>a\<close>: it tries again exactly after an error with the message
  \<open>InsufficientFundsError\<close> when \<open>a\<close> exceeds the smallest denomination; every other
  outcome ends the loop, with the transaction or with nothing.
\<close>

definition attempt_retried ::
  "(EdgeSpendInfo \<Rightarrow> (error + EdgeTransaction) option) \<Rightarrow> EdgeSpendInfo \<Rightarrow> int \<Rightarrow> bool" where
  "attempt_retried mk info a =
     (\<exists>e. mk info = Some (Inl e) \<and> message e = ''InsufficientFundsError''
          \<and> denominations ! 0 < a)"

definition attempt_final ::
  "(EdgeSpendInfo \<Rightarrow> (error + EdgeTransaction) option) \<Rightarrow> EdgeSpendInfo \<Rightarrow> int
     \<Rightarrow> EdgeTransaction option \<Rightarrow> bool" where
  "attempt_final mk info a res =
     ((\<exists>t. mk info = Some (Inr t) \<and> res = Some t)
      \<or> (\<exists>e. mk info = Some (Inl e) \<and> res = None
              \<and> \<not> (message e = ''InsufficientFundsError'' \<and> denominations ! 0 < a)))"

text \<open>
  The record of a whole run of the loop: the amounts tried go down by the smallest
  denomination, every attempt but the last was retried, the last one was final.
\<close>

definition mint_trace ::
  "(EdgeSpendInfo \<Rightarrow> (error + EdgeTransaction) option) \<Rightarrow> EdgeSpendInfo
     \<Rightarrow> EdgeTransaction option \<Rightarrow> int list \<Rightarrow> bool" where
  "mint_trace mk info res tried =
     (tried \<noteq> []
      \<and> (\<forall>n < length tried. tried ! n = firstAmount info - int n * (denominations ! 0))
      \<and> (\<forall>n. Suc n < length tried \<longrightarrow>
             attempt_retried mk ((lowerFirstAmount ^^ n) info) (tried ! n))
      \<and> attempt_final mk ((lowerFirstAmount ^^ (length tried - 1)) info) (last tried) res)"

text \<open>
  A sample engine: one unspent output of \<open>200000000\<close>; a transaction builder that cannot
  fund more than \<open>10000000\<close> and otherwise returns one output per requested output and a
  fee of \<open>1000\<close>; signing, broadcasting and saving succeed.
\<close>

definition sample_Engine :: Engine where
  "sample_Engine =
     \<lparr>getUTXOs = [\<lparr>tx = \<lparr>txid = ''funding'', outputs = [\<lparr>value_o = 200000000\<rparr>]\<rparr>,
                   index_u = 0, height_u = Some 10\<rparr>],
      getLastPrivateCoinIndex = 0,
      dataKey_e = ''key'',
      keyManager_createTX =
        (\<lambda>outs utxos opts.
           if 10000000 < sum_list (map (\<lambda>out. case out of AddressOutput a v \<Rightarrow> v
                                                | ScriptOutput s v \<Rightarrow> v) outs)
           then Inl (Err ''Not enough funds.'' ''FundingError'')
           else Inr \<lparr>outputs_m =
                       map (\<lambda>out. case out of
                              AddressOutput a v \<Rightarrow>
                                \<lparr>address_m = Some a, script_m = ''76a9'', value_m = v\<rparr>
                            | ScriptOutput s v \<Rightarrow>
                                \<lparr>address_m = None, script_m = s, value_m = v\<rparr>) outs,
                     fee_m = 1000\<rparr>),
      signTx = (\<lambda>t. Inr t),
      broadcastTx = (\<lambda>t. Inr t),
      saveTx = (\<lambda>t. Inr ())\<rparr>"

definition sample_target :: "int \<Rightarrow> EdgeSpendInfo" where
  "sample_target a =
     \<lparr>spendTargets = [\<lparr>publicAddress = ''change'', nativeAmount = Some a, script = None\<rparr>]\<rparr>"

definition sample_minted_coin :: PrivateCoin where
  "sample_minted_coin =
     \<lparr>value_c = 10000000, index = 1, commitment = ''c1'', serialNumber = ''s1'',
      groupId = - 1, isSpend = False, spendTxId = ''''\<rparr>"

text \<open>
  Sample stored coins for spending: two spendable ones, one whose \<open>groupId\<close> is \<open>0\<close>, one
  already spent and one not yet in a group.
\<close>

definition coin_A :: PrivateCoin where
  "coin_A = \<lparr>value_c = 100, index = 1, commitment = ''c1'', serialNumber = ''s1'',
             groupId = 2, isSpend = False, spendTxId = ''''\<rparr>"

definition coin_B :: PrivateCoin where
  "coin_B = \<lparr>value_c = 500, index = 2, commitment = ''c2'', serialNumber = ''s2'',
             groupId = 0, isSpend = False, spendTxId = ''''\<rparr>"

definition coin_C :: PrivateCoin where
  "coin_C = \<lparr>value_c = 1000, index = 3, commitment = ''c3'', serialNumber = ''s3'',
             groupId = 3, isSpend = True, spendTxId = ''t1''\<rparr>"

definition coin_D :: PrivateCoin where
  "coin_D = \<lparr>value_c = 50, index = 4, commitment = ''c4'', serialNumber = ''s4'',
             groupId = - 1, isSpend = False, spendTxId = ''''\<rparr>"

definition coin_E :: PrivateCoin where
  "coin_E = \<lparr>value_c = 300, index = 5, commitment = ''c5'', serialNumber = ''s5'',
             groupId = 2, isSpend = False, spendTxId = ''''\<rparr>"

text \<open>
  A parent transaction with two outputs, the smaller one first, and the two unspent
  outputs that refer to it, both confirmed at the height \<open>100\<close>; the options of a CPFP
  build on it with the limit \<open>1\<close>; an address parser that accepts one address.
\<close>

definition parent_tx :: Tx where
  "parent_tx = \<lparr>txid = ''parent'', outputs = [\<lparr>value_o = 1000\<rparr>, \<lparr>value_o = 5000\<rparr>]\<rparr>"

definition utxo_small :: Utxo where
  "utxo_small = \<lparr>tx = parent_tx, index_u = 0, height_u = Some 100\<rparr>"

definition utxo_large :: Utxo where
  "utxo_large = \<lparr>tx = parent_tx, index_u = 1, height_u = Some 100\<rparr>"

definition cpfp_TxOptions :: TxOptions where
  "cpfp_TxOptions =
     \<lparr>utxos_o = None, CPFP = ''parent'', CPFPlimit = 1, subtractFee = False, setRBF = False\<rparr>"

definition sample_toBcoinFormat :: toBcoinFormat where
  "sample_toBcoinFormat a =
     (if a = ''change'' then Inr ''change'' else Inl (Error ''Invalid address''))"

section \<open>Properties of the integers held in numbers\<close>

lemma double_exp_small: "n < 9007199254740992 \<Longrightarrow> double_exp n = 0"
  by (simp add: double_exp.simps)

lemma double_exp_one:
  "9007199254740992 \<le> n \<Longrightarrow> n < 18014398509481984 \<Longrightarrow> double_exp n = 1"
  by (subst double_exp.simps) (simp add: double_exp_small)

lemma to_double_exact:
  assumes "\<bar>x\<bar> \<le> 9007199254740992"
  shows "to_double x = x"
proof (cases "\<bar>x\<bar> < 9007199254740992")
  case True
  then have "double_exp (nat \<bar>x\<bar>) = 0" by (intro double_exp_small) simp
  then show ?thesis by (simp add: to_double_def Let_def mult_sgn_abs)
next
  case False
  with assms have x: "\<bar>x\<bar> = 9007199254740992" by simp
  then have "double_exp (nat \<bar>x\<bar>) = 1" by (intro double_exp_one) simp_all
  then have "to_double x = sgn x * \<bar>x\<bar>" by (simp add: to_double_def Let_def x)
  then show ?thesis by (simp add: mult_sgn_abs)
qed

lemma js_increment_exact:
  "- 9007199254740993 \<le> x \<Longrightarrow> x < 9007199254740992 \<Longrightarrow> js_increment x = x + 1"
  unfolding js_increment_def by (rule to_double_exact) simp

lemma js_increment_stuck: "js_increment 9007199254740992 = 9007199254740992"
proof -
  have "double_exp (nat \<bar>9007199254740993\<bar>) = 1" by (intro double_exp_one) simp_all
  then show ?thesis by (simp add: js_increment_def to_double_def Let_def)
qed

lemma js_increment_funpow:
  "- 9007199254740992 \<le> i \<Longrightarrow> i + int n \<le> 9007199254740992
     \<Longrightarrow> (js_increment ^^ n) i = i + int n"
proof (induction n)
  case 0
  then show ?case by simp
next
  case (Suc n)
  then have "(js_increment ^^ n) i = i + int n" by simp
  moreover have "js_increment (i + int n) = i + int n + 1"
    using Suc.prems by (intro js_increment_exact) simp_all
  ultimately show ?case by simp
qed

lemma funpow_shift: "(f ^^ n) (f x) = (f ^^ Suc n) x"
  by (simp add: funpow_swap1)

section \<open>Properties of the denomination loops\<close>

lemma createPrivateCoin_fields:
  assumes "createPrivateCoin io v k i = Inr c"
  shows "value_c c = v \<and> index c = i \<and> groupId c = 0 \<and> \<not> isSpend c \<and> spendTxId c = ''''"
proof (cases "io (of_int v / of_int SIGMA_COIN) k i")
  case (Inl e)
  with assms show ?thesis by (simp add: createPrivateCoin_def)
next
  case (Inr p)
  obtain cm s where p: "p = (cm, s)" by (cases p) auto
  from assms Inr p have "c = \<lparr>value_c = v, index = i, commitment = cm, serialNumber = s,
               groupId = 0, isSpend = False, spendTxId = ''''\<rparr>"
    by (simp add: createPrivateCoin_def)
  then show ?thesis by simp
qed

lemma mw_post_step:
  assumes pc: "index pCoin = js_increment i" "value_c pCoin = to_double d" and le: "d \<le> v"
    and rec: "mw_post d (v - d) (js_increment i) (r @ [pCoin]) y"
  shows "mw_post d v i r y"
proof (cases y)
  case (Inl e)
  then show ?thesis by (simp add: mw_post_def)
next
  case (Inr t)
  obtain v' i' r' where t: "t = (v', i', r')" by (cases t) auto
  from rec Inr t obtain cs where cs:
    "r' = (r @ [pCoin]) @ cs" "i' = (js_increment ^^ length cs) (js_increment i)"
    "v' = v - d - d * int (length cs)" "v' < d" "0 \<le> v - d \<longrightarrow> 0 \<le> v'"
    "\<forall>n < length cs. index (cs ! n) = (js_increment ^^ Suc n) (js_increment i)
                        \<and> value_c (cs ! n) = to_double d"
    unfolding mw_post_def by auto
  have a: "\<forall>n < length (pCoin # cs). index ((pCoin # cs) ! n) = (js_increment ^^ Suc n) i
                                    \<and> value_c ((pCoin # cs) ! n) = to_double d"
  proof (intro allI impI)
    fix n assume n: "n < length (pCoin # cs)"
    show "index ((pCoin # cs) ! n) = (js_increment ^^ Suc n) i
        \<and> value_c ((pCoin # cs) ! n) = to_double d"
    proof (cases n)
      case 0
      then show ?thesis using pc by simp
    next
      case (Suc m)
      then have "m < length cs" using n by simp
      with cs(6) have "index (cs ! m) = (js_increment ^^ Suc m) (js_increment i)"
        "value_c (cs ! m) = to_double d" by blast+
      then show ?thesis using Suc by (simp only: funpow_shift nth_Cons_Suc)
    qed
  qed
  have b: "r' = r @ (pCoin # cs)" using cs(1) by simp
  have c: "i' = (js_increment ^^ length (pCoin # cs)) i"
    using cs(2) by (simp only: funpow_shift length_Cons)
  have d: "v' = v - d * int (length (pCoin # cs))" using cs(3) by (simp add: algebra_simps)
  have e: "0 \<le> v \<longrightarrow> 0 \<le> v'" using cs(5) le by auto
  have f: "v' \<le> v" using cs(4) le by simp
  have "\<exists>cs. r' = r @ cs \<and> i' = (js_increment ^^ length cs) i
       \<and> v' = v - d * int (length cs) \<and> v' < d
       \<and> v' \<le> v \<and> (0 \<le> v \<longrightarrow> 0 \<le> v')
       \<and> (\<forall>n < length cs. index (cs ! n) = (js_increment ^^ Suc n) i
                            \<and> value_c (cs ! n) = to_double d)"
    using a b c d e f cs(4) by blast
  then show ?thesis using Inr t by (simp add: mw_post_def)
qed

lemma mintWhile_partial:
  assumes "mintWhile io k d v i r = Some y"
  shows "mw_post d v i r y"
  using assms
proof (rule mintWhile.raw_induct[where P = "\<lambda>io k d v i r y. mw_post d v i r y", rotated 1])
  fix mw :: "sigmaMint \<Rightarrow> string \<Rightarrow> int \<Rightarrow> int \<Rightarrow> int \<Rightarrow> PrivateCoin list
     \<Rightarrow> (error + int \<times> int \<times> PrivateCoin list) option" and io k d v i r y
  assume IH: "\<And>io k d v i r y. mw io k d v i r = Some y \<Longrightarrow> mw_post d v i r y"
  assume eq: "(if d \<le> v
      then case createPrivateCoin io (to_double d) k (js_increment i) of
           Inl e \<Rightarrow> Some (Inl e)
           | Inr pCoin \<Rightarrow> mw io k d (v - d) (js_increment i) (r @ [pCoin])
      else Some (Inr (v, i, r))) = Some y"
  show "mw_post d v i r y"
  proof (cases "d \<le> v")
    case False
    with eq have "y = Inr (v, i, r)" by simp
    then show ?thesis using False by (simp add: mw_post_def)
  next
    case True
    show ?thesis
    proof (cases "createPrivateCoin io (to_double d) k (js_increment i)")
      case (Inl e)
      with True eq have "y = Inl e" by simp
      then show ?thesis by (simp add: mw_post_def)
    next
      case (Inr pCoin)
      with True eq have rec: "mw io k d (v - d) (js_increment i) (r @ [pCoin]) = Some y" by simp
      from createPrivateCoin_fields[OF Inr] have "index pCoin = js_increment i" "value_c pCoin = to_double d"
        by simp_all
      then show ?thesis using True IH[OF rec] by (rule mw_post_step)
    qed
  qed
qed

lemma mintWhile_returns:
  assumes "0 < d"
  shows "\<exists>y. mintWhile io k d v i r = Some y"
proof (induction "nat v" arbitrary: v i r rule: less_induct)
  case less
  show ?case
  proof (cases "d \<le> v")
    case False
    then show ?thesis by (subst mintWhile.simps) simp
  next
    case True
    show ?thesis
    proof (cases "createPrivateCoin io (to_double d) k (js_increment i)")
      case (Inl e)
      with True show ?thesis by (subst mintWhile.simps) simp
    next
      case (Inr pCoin)
      have "nat (v - d) < nat v" using True assms by simp
      from less[OF this] obtain y where
        "mintWhile io k d (v - d) (js_increment i) (r @ [pCoin]) = Some y"
        by blast
      with True Inr show ?thesis by (subst mintWhile.simps) simp
    qed
  qed
qed

lemma createPrivateCoin_total:
  assumes "oracle_total io k"
  shows "\<exists>c. createPrivateCoin io v k i = Inr c"
proof -
  from assms obtain p where "io (of_int v / of_int SIGMA_COIN) k i = Inr p"
    unfolding oracle_total_def by blast
  then show ?thesis by (cases p) (simp add: createPrivateCoin_def)
qed

lemma mintWhile_returns_Inr:
  assumes "0 < d" and ok: "oracle_total io k"
  shows "\<exists>v' i' r'. mintWhile io k d v i r = Some (Inr (v', i', r'))"
proof (induction "nat v" arbitrary: v i r rule: less_induct)
  case less
  show ?case
  proof (cases "d \<le> v")
    case False
    then show ?thesis by (subst mintWhile.simps) simp
  next
    case True
    from createPrivateCoin_total[OF ok] obtain pCoin where
      pc: "createPrivateCoin io (to_double d) k (js_increment i) = Inr pCoin" by blast
    have "nat (v - d) < nat v" using True assms by simp
    from less[OF this] obtain v' i' r' where
      "mintWhile io k d (v - d) (js_increment i) (r @ [pCoin]) = Some (Inr (v', i', r'))"
      by blast
    with True pc show ?thesis by (subst mintWhile.simps) simp
  qed
qed

lemma divmod_unique_int:
  assumes "0 \<le> r" "r < d" "v = r + d * n"
  shows "v div d = n \<and> v mod d = (r::int)"
  using assms by simp

lemma ml_post_step:
  assumes mw: "mw_post d v i r (Inr (v1, i1, r1))" and rec: "ml_post ds v1 i1 r1 y"
  shows "ml_post (d # ds) v i r y"
proof (cases y)
  case (Inl e)
  then show ?thesis by (simp add: ml_post_def)
next
  case (Inr t)
  obtain v' i' r' where t: "t = (v', i', r')" by (cases t) auto
  from mw obtain cs1 where cs1:
    "r1 = r @ cs1" "i1 = (js_increment ^^ length cs1) i" "v1 = v - d * int (length cs1)" "v1 < d"
    "v1 \<le> v" "0 \<le> v \<longrightarrow> 0 \<le> v1"
    "\<forall>n < length cs1. index (cs1 ! n) = (js_increment ^^ Suc n) i
                         \<and> value_c (cs1 ! n) = to_double d"
    unfolding mw_post_def by auto
  from rec Inr t obtain cs2 where cs2:
    "r' = r1 @ cs2" "i' = (js_increment ^^ length cs2) i1"
    "(\<forall>d \<in> set ds. to_double d = d) \<longrightarrow> sum_list (map value_c cs2) = v1 - v'"
    "v' \<le> v1" "0 \<le> v1 \<longrightarrow> 0 \<le> v'" "\<forall>d \<in> set ds. v' < d"
    "\<forall>n < length cs2. index (cs2 ! n) = (js_increment ^^ Suc n) i1"
    "(\<forall>d \<in> set ds. 0 < d \<and> to_double d = d) \<and> 0 \<le> v1 \<longrightarrow>
        map value_c cs2 = greedy_units ds v1 \<and> v' = greedy_remainder ds v1"
    unfolding ml_post_def by auto
  have vals1: "map value_c cs1 = replicate (length cs1) (to_double d)"
    using cs1(7) by (intro nth_equalityI) auto
  have a: "r' = r @ (cs1 @ cs2)" using cs1(1) cs2(1) by simp
  have "i' = (js_increment ^^ (length cs2 + length cs1)) i"
    using cs1(2) cs2(2) by (simp only: funpow_add o_apply)
  then have b: "i' = (js_increment ^^ length (cs1 @ cs2)) i"
    by (simp only: length_append add.commute)
  have c: "(\<forall>x \<in> set (d # ds). to_double x = x) \<longrightarrow> sum_list (map value_c (cs1 @ cs2)) = v - v'"
  proof
    assume ex: "\<forall>x \<in> set (d # ds). to_double x = x"
    then have "sum_list (map value_c cs1) = d * int (length cs1)"
      by (simp add: vals1 sum_list_replicate)
    moreover from ex cs2(3) have "sum_list (map value_c cs2) = v1 - v'" by simp
    ultimately show "sum_list (map value_c (cs1 @ cs2)) = v - v'"
      using cs1(3) by simp
  qed
  have d: "v' \<le> v" using cs1(5) cs2(4) by simp
  have e: "0 \<le> v \<longrightarrow> 0 \<le> v'" using cs1(6) cs2(5) by simp
  have f: "\<forall>x \<in> set (d # ds). v' < x" using cs2(6) cs2(4) cs1(4) by auto
  have g: "\<forall>n < length (cs1 @ cs2). index ((cs1 @ cs2) ! n) = (js_increment ^^ Suc n) i"
  proof (intro allI impI)
    fix n assume n: "n < length (cs1 @ cs2)"
    show "index ((cs1 @ cs2) ! n) = (js_increment ^^ Suc n) i"
    proof (cases "n < length cs1")
      case True
      then show ?thesis using cs1(7) by (simp add: nth_append)
    next
      case False
      then have m: "n - length cs1 < length cs2" using n by simp
      with cs2(7) have "index (cs2 ! (n - length cs1)) = (js_increment ^^ Suc (n - length cs1)) i1"
        by blast
      also have "\<dots> = (js_increment ^^ (Suc (n - length cs1) + length cs1)) i"
        unfolding cs1(2) by (simp only: funpow_add o_apply)
      also have "Suc (n - length cs1) + length cs1 = Suc n" using False by simp
      finally show ?thesis using False by (simp add: nth_append)
    qed
  qed
  have h: "(\<forall>x \<in> set (d # ds). 0 < x \<and> to_double x = x) \<and> 0 \<le> v \<longrightarrow>
        map value_c (cs1 @ cs2) = greedy_units (d # ds) v \<and> v' = greedy_remainder (d # ds) v"
  proof
    assume pos: "(\<forall>x \<in> set (d # ds). 0 < x \<and> to_double x = x) \<and> 0 \<le> v"
    then have v1: "0 \<le> v1" using cs1(6) by simp
    from pos have dd: "to_double d = d" by simp
    have "v = v1 + d * int (length cs1)" using cs1(3) by simp
    from divmod_unique_int[OF v1 cs1(4) this]
    have dm: "v div d = int (length cs1)" "v mod d = v1" by simp_all
    from pos v1 cs2(8) have "map value_c cs2 = greedy_units ds v1 \<and> v' = greedy_remainder ds v1"
      by simp
    then show "map value_c (cs1 @ cs2) = greedy_units (d # ds) v \<and> v' = greedy_remainder (d # ds) v"
      using dm vals1 dd by simp
  qed
  have "\<exists>cs. r' = r @ cs \<and> i' = (js_increment ^^ length cs) i
             \<and> ((\<forall>x \<in> set (d # ds). to_double x = x) \<longrightarrow> sum_list (map value_c cs) = v - v')
             \<and> v' \<le> v \<and> (0 \<le> v \<longrightarrow> 0 \<le> v')
             \<and> (\<forall>x \<in> set (d # ds). v' < x)
             \<and> (\<forall>n < length cs. index (cs ! n) = (js_increment ^^ Suc n) i)
             \<and> ((\<forall>x \<in> set (d # ds). 0 < x \<and> to_double x = x) \<and> 0 \<le> v \<longrightarrow>
                  map value_c cs = greedy_units (d # ds) v \<and> v' = greedy_remainder (d # ds) v)"
    using a b c d e f g h by blast
  then show ?thesis using Inr t by (simp add: ml_post_def)
qed

lemma mintLadder_partial:
  "mintLadder io k ds v i r = Some y \<Longrightarrow> ml_post ds v i r y"
proof (induction ds arbitrary: v i r)
  case Nil
  then show ?case by (auto simp: ml_post_def)
next
  case (Cons d ds)
  show ?case
  proof (cases "mintWhile io k d v i r")
    case None
    with Cons.prems show ?thesis by simp
  next
    case (Some w)
    show ?thesis
    proof (cases w)
      case (Inl e)
      with Some Cons.prems have "y = Inl e" by simp
      then show ?thesis by (simp add: ml_post_def)
    next
      case (Inr t)
      obtain v1 i1 r1 where t: "t = (v1, i1, r1)" by (cases t) auto
      from Some Inr t have mw: "mintWhile io k d v i r = Some (Inr (v1, i1, r1))" by simp
      with Cons.prems have "mintLadder io k ds v1 i1 r1 = Some y" by simp
      from mintWhile_partial[OF mw] Cons.IH[OF this] show ?thesis by (rule ml_post_step)
    qed
  qed
qed

lemma mintLadder_returns_Inr:
  assumes ok: "oracle_total io k"
  shows "\<forall>d \<in> set ds. 0 < d \<Longrightarrow> \<exists>v' i' r'. mintLadder io k ds v i r = Some (Inr (v', i', r'))"
proof (induction ds arbitrary: v i r)
  case Nil
  then show ?case by simp
next
  case (Cons d ds)
  then have "0 < d" by simp
  from mintWhile_returns_Inr[OF this ok] obtain v1 i1 r1 where
    "mintWhile io k d v i r = Some (Inr (v1, i1, r1))" by blast
  moreover from Cons obtain v' i' r' where "mintLadder io k ds v1 i1 r1 = Some (Inr (v', i', r'))"
    by fastforce
  ultimately show ?case by simp
qed

lemma greedy_units_subset: "set (greedy_units ds v) \<subseteq> set ds"
  by (induction ds arbitrary: v) auto

lemma greedy_units_descending:
  "sorted_wrt (\<ge>) ds \<Longrightarrow> sorted_wrt (\<ge>) (greedy_units ds v)"
proof (induction ds arbitrary: v)
  case Nil
  then show ?case by simp
next
  case (Cons d ds)
  have "\<forall>x \<in> set (greedy_units ds (v mod d)). x \<le> d"
    using Cons.prems greedy_units_subset[of ds "v mod d"] by auto
  moreover have "sorted_wrt (\<ge>) (replicate (nat (v div d)) d)"
    by (simp add: sorted_wrt_iff_nth_less)
  ultimately show ?case using Cons by (auto simp: sorted_wrt_append)
qed

lemma getMintCommitmentsForValue_Inr:
  assumes "getMintCommitmentsForValue ladder io v k start = Some (Inr coins)"
  shows "\<exists>v' i'. mintLadder io k (rev ladder) v start [] = Some (Inr (v', i', coins))"
  using assms unfolding getMintCommitmentsForValue_def
  by (simp split: option.splits sum.splits prod.splits)

lemma sample_mint_150:
  "getMintCommitmentsForValue denominations sample_sigmaMint 150000000 ''key'' 0 =
     Some (Inr [\<lparr>value_c = 100000000, index = 1, commitment = ''c1'', serialNumber = ''s1'',
                 groupId = 0, isSpend = False, spendTxId = ''''\<rparr>,
                \<lparr>value_c = 50000000, index = 2, commitment = ''c2'', serialNumber = ''s2'',
                 groupId = 0, isSpend = False, spendTxId = ''''\<rparr>])"
  by (simp add: getMintCommitmentsForValue_def denominations_def mintWhile.simps
      createPrivateCoin_def sample_sigmaMint_def js_increment_exact to_double_exact)

lemma greedy_remainder_bounds:
  "\<forall>d \<in> set ds. 0 < d \<Longrightarrow> 0 \<le> v \<Longrightarrow> 0 \<le> greedy_remainder ds v \<and> greedy_remainder ds v \<le> v"
proof (induction ds arbitrary: v)
  case Nil
  then show ?case by simp
next
  case (Cons d ds)
  then have d: "0 < d" by simp
  then have m: "0 \<le> v mod d" "v mod d \<le> v" using Cons.prems(2)
    by (simp_all add: zmod_le_nonneg_dividend)
  from Cons.IH[OF _ m(1)] Cons.prems(1) m(2) show ?case by auto
qed

lemma ml_post_Nil:
  assumes "ml_post ds v i [] (Inr (v', i', coins))"
  shows "i' = (js_increment ^^ length coins) i
       \<and> ((\<forall>d \<in> set ds. to_double d = d) \<longrightarrow> sum_list (map value_c coins) = v - v')
       \<and> v' \<le> v \<and> (0 \<le> v \<longrightarrow> 0 \<le> v')
       \<and> (\<forall>d \<in> set ds. v' < d)
       \<and> (\<forall>n < length coins. index (coins ! n) = (js_increment ^^ Suc n) i)
       \<and> ((\<forall>d \<in> set ds. 0 < d \<and> to_double d = d) \<and> 0 \<le> v \<longrightarrow>
             map value_c coins = greedy_units ds v \<and> v' = greedy_remainder ds v)"
  using assms by (simp add: ml_post_def)

lemma oracle_total_sample: "oracle_total sample_sigmaMint k"
  by (simp add: oracle_total_def sample_sigmaMint_def)

section \<open>Properties of the restore scan\<close>

lemma restore_loop_scan:
  assumes "restore_loop io key used groups cc c i md = Inr (c', i', md')"
    and "c \<le> 100" and "i \<le> cc"
    and "\<forall>j. i - c < j \<and> j \<le> i \<longrightarrow> scan_hit io key used groups j = None"
  shows "(c' = 101 \<and> i' \<le> cc \<and> i \<le> i'
            \<and> (\<forall>j. i' - 100 < j \<and> j \<le> i' \<longrightarrow> scan_hit io key used groups j = None)
            \<and> md' = md @ List.map_filter (scan_hit io key used groups) [i + 1..i'])
       \<or> (c' \<le> 100 \<and> i' = cc + 1
            \<and> (\<forall>j. cc - (c' - 1) < j \<and> j \<le> cc \<longrightarrow> scan_hit io key used groups j = None)
            \<and> md' = md @ List.map_filter (scan_hit io key used groups) [i + 1..cc])"
  using assms
proof (induction io key used groups cc c i md rule: restore_loop.induct)
  case (1 io key used groups cc c i md)
  let ?hit = "scan_hit io key used groups"
  note eq = "1.prems"(1)[unfolded restore_loop.simps[of io key used groups cc c i md]]
  show ?case
  proof (cases "c < 100")
    case False
    with eq "1.prems" have "c' = 101" "i' = i" "md' = md" "c = 100" by simp_all
    then show ?thesis using "1.prems" by (simp add: List.map_filter_simps)
  next
    case c: True
    show ?thesis
    proof (cases "i < cc")
      case False
      with c eq "1.prems" have "c' = c + 1" "i' = i + 1" "md' = md" "i = cc" by simp_all
      then show ?thesis using "1.prems" c by (simp add: List.map_filter_simps)
    next
      case i: True
      show ?thesis
      proof (cases "createPrivateCoin io 100000000 key (i + 1)")
        case (Inl e)
        with c i eq show ?thesis by simp
      next
        case (Inr coin)
        show ?thesis
        proof (cases "find (\<lambda>coinInfo. commitment coin \<in> set (anonymitySet coinInfo)) groups")
          case None
          then have miss: "?hit (i + 1) = None" using Inr by (simp add: scan_hit_def)
          from c i Inr None eq have rec:
            "restore_loop io key used groups cc (c + 1) (i + 1) md = Inr (c', i', md')" by simp
          have inv: "\<forall>j. i + 1 - (c + 1) < j \<and> j \<le> i + 1 \<longrightarrow> ?hit j = None"
          proof (intro allI impI)
            fix j assume j: "i + 1 - (c + 1) < j \<and> j \<le> i + 1"
            show "?hit j = None"
            proof (cases "j = i + 1")
              case True then show ?thesis using miss by simp
            next
              case False
              with j have "i - c < j \<and> j \<le> i" by simp
              with "1.prems"(4) show ?thesis by blast
            qed
          qed
          from "1.IH"(1)[OF c i Inr None rec _ _ inv] c i
          have IH: "(c' = 101 \<and> i' \<le> cc \<and> i + 1 \<le> i'
            \<and> (\<forall>j. i' - 100 < j \<and> j \<le> i' \<longrightarrow> ?hit j = None)
            \<and> md' = md @ List.map_filter ?hit [i + 1 + 1..i'])
           \<or> (c' \<le> 100 \<and> i' = cc + 1
            \<and> (\<forall>j. cc - (c' - 1) < j \<and> j \<le> cc \<longrightarrow> ?hit j = None)
            \<and> md' = md @ List.map_filter ?hit [i + 1 + 1..cc])" by simp
          then show ?thesis
          proof (elim disjE conjE)
            assume a: "c' = 101" "i' \<le> cc" "i + 1 \<le> i'"
              "\<forall>j. i' - 100 < j \<and> j \<le> i' \<longrightarrow> ?hit j = None"
              "md' = md @ List.map_filter ?hit [i + 1 + 1..i']"
            have "[i + 1..i'] = (i + 1) # [i + 1 + 1..i']" using a(3) by (simp add: upto_rec1)
            then have "List.map_filter ?hit [i + 1..i'] = List.map_filter ?hit [i + 1 + 1..i']"
              using miss by (simp add: List.map_filter_simps)
            with a show ?thesis by simp
          next
            assume a: "c' \<le> 100" "i' = cc + 1"
              "\<forall>j. cc - (c' - 1) < j \<and> j \<le> cc \<longrightarrow> ?hit j = None"
              "md' = md @ List.map_filter ?hit [i + 1 + 1..cc]"
            have "[i + 1..cc] = (i + 1) # [i + 1 + 1..cc]" using i by (simp add: upto_rec1)
            then have "List.map_filter ?hit [i + 1..cc] = List.map_filter ?hit [i + 1 + 1..cc]"
              using miss by (simp add: List.map_filter_simps)
            with a show ?thesis by simp
          qed
        next
          case (Some coinInfo)
          let ?rec = "\<lparr>value_c = denom coinInfo, index = i + 1,
                          commitment = commitment coin, serialNumber = '''',
                          groupId = id_g coinInfo,
                          isSpend = (serialNumber coin \<in> set used),
                          spendTxId = ''''\<rparr>"
          have hit: "?hit (i + 1) = Some ?rec" using Inr Some by (simp add: scan_hit_def)
          from c i Inr Some eq have rec:
            "restore_loop io key used groups cc 0 (i + 1) (md @ [?rec]) = Inr (c', i', md')"
            by simp
          have inv: "\<forall>j. i + 1 - 0 < j \<and> j \<le> i + 1 \<longrightarrow> ?hit j = None" by auto
          from "1.IH"(2)[OF c i Inr Some rec _ _ inv] i
          have IH: "(c' = 101 \<and> i' \<le> cc \<and> i + 1 \<le> i'
            \<and> (\<forall>j. i' - 100 < j \<and> j \<le> i' \<longrightarrow> ?hit j = None)
            \<and> md' = (md @ [?rec]) @ List.map_filter ?hit [i + 1 + 1..i'])
           \<or> (c' \<le> 100 \<and> i' = cc + 1
            \<and> (\<forall>j. cc - (c' - 1) < j \<and> j \<le> cc \<longrightarrow> ?hit j = None)
            \<and> md' = (md @ [?rec]) @ List.map_filter ?hit [i + 1 + 1..cc])" by simp
          then show ?thesis
          proof (elim disjE conjE)
            assume a: "c' = 101" "i' \<le> cc" "i + 1 \<le> i'"
              "\<forall>j. i' - 100 < j \<and> j \<le> i' \<longrightarrow> ?hit j = None"
              "md' = (md @ [?rec]) @ List.map_filter ?hit [i + 1 + 1..i']"
            have "[i + 1..i'] = (i + 1) # [i + 1 + 1..i']" using a(3) by (simp add: upto_rec1)
            then have "List.map_filter ?hit [i + 1..i'] = ?rec # List.map_filter ?hit [i + 1 + 1..i']"
              using hit by (simp add: List.map_filter_simps)
            with a show ?thesis by simp
          next
            assume a: "c' \<le> 100" "i' = cc + 1"
              "\<forall>j. cc - (c' - 1) < j \<and> j \<le> cc \<longrightarrow> ?hit j = None"
              "md' = (md @ [?rec]) @ List.map_filter ?hit [i + 1 + 1..cc]"
            have "[i + 1..cc] = (i + 1) # [i + 1 + 1..cc]" using i by (simp add: upto_rec1)
            then have "List.map_filter ?hit [i + 1..cc] = ?rec # List.map_filter ?hit [i + 1 + 1..cc]"
              using hit by (simp add: List.map_filter_simps)
            with a show ?thesis by simp
          qed
        qed
      qed
    qed
  qed
qed

lemma restore_loop_returns:
  assumes ok: "oracle_total io key"
  shows "\<exists>c' i' md'. restore_loop io key used groups cc c i md = Inr (c', i', md')"
  using ok
proof (induction io key used groups cc c i md rule: restore_loop.induct)
  case (1 io key used groups cc c i md)
  note simps = restore_loop.simps[of io key used groups cc c i md]
  show ?case
  proof (cases "c < 100 \<and> i < cc")
    case False
    then show ?thesis by (subst simps) auto
  next
    case True
    then have c: "c < 100" and i: "i < cc" by simp_all
    from createPrivateCoin_total[OF "1.prems"] obtain coin where
      coin: "createPrivateCoin io 100000000 key (i + 1) = Inr coin" by blast
    show ?thesis
    proof (cases "find (\<lambda>coinInfo. commitment coin \<in> set (anonymitySet coinInfo)) groups")
      case None
      from "1.IH"(1)[OF c i coin None "1.prems"] show ?thesis
        using c i coin None by (subst simps) simp
    next
      case (Some coinInfo)
      from "1.IH"(2)[OF c i coin Some "1.prems"] show ?thesis
        using c i coin Some by (subst simps) simp
    qed
  qed
qed

lemma total_commitments_nonneg: "0 \<le> total_commitments groups"
  unfolding total_commitments_def by (induction groups) auto

lemma retrieveGroupSets_count:
  "retrieveGroupSets w d ids aset cc = Inr (aset', cc') \<Longrightarrow>
     cc' - cc = int (length aset') - int (length aset)"
proof (induction ids arbitrary: aset cc)
  case Nil
  then show ?case by simp
next
  case (Cons i ids)
  show ?case
  proof (cases "retrieveAnonymitySet w d i")
    case (Inl e)
    with Cons.prems show ?thesis by simp
  next
    case (Inr a)
    with Cons.prems have "retrieveGroupSets w d ids (aset @ serializedCoins a)
        (cc + int (length (serializedCoins a))) = Inr (aset', cc')" by simp
    from Cons.IH[OF this] show ?thesis by simp
  qed
qed

lemma retrieveAllSets_count:
  "retrieveAllSets w latest cc = Inr (groups, cc') \<Longrightarrow> cc' = cc + total_commitments groups"
proof (induction latest arbitrary: cc groups cc')
  case Nil
  then show ?case by (simp add: total_commitments_def)
next
  case (Cons g latest)
  show ?case
  proof (cases "retrieveGroupSets w (denom g) [1..id_g g] [] cc")
    case (Inl e)
    with Cons.prems show ?thesis by simp
  next
    case (Inr p)
    obtain aset cc1 where p: "p = (aset, cc1)" by (cases p) auto
    show ?thesis
    proof (cases "retrieveAllSets w latest cc1")
      case (Inl e)
      with Cons.prems Inr p show ?thesis by simp
    next
      case Inr2: (Inr q)
      obtain rest cc2 where q: "q = (rest, cc2)" by (cases q) auto
      from Cons.prems Inr p Inr2 q have g: "groups = g\<lparr>anonymitySet := aset\<rparr> # rest" "cc' = cc2"
        by simp_all
      from retrieveGroupSets_count[of w "denom g" "[1..id_g g]" "[]" cc aset cc1] Inr p
      have "cc1 = cc + int (length aset)" by simp
      moreover from Cons.IH[of cc1 rest cc2] Inr2 q have "cc2 = cc1 + total_commitments rest" by simp
      ultimately show ?thesis using g by (simp add: total_commitments_def)
    qed
  qed
qed

lemma sample_scan:
  "restore_loop sample_sigmaMint ''key'' [''s1''] sample_groups 2 0 (- 1) [] =
     Inr (2, 3, [sample_restored_coin])"
  by (simp add: restore_loop.simps createPrivateCoin_def sample_sigmaMint_def sample_groups_def
      sample_restored_coin_def)

lemma sample_total_commitments: "total_commitments sample_groups = 2"
  by (simp add: total_commitments_def sample_groups_def)

lemma sample_restore:
  "restore sample_World sample_sigmaMint ''key'' empty_Storage =
     (Inr True, \<lparr>mintedCoins = [sample_restored_coin], mintFile = Some [sample_restored_coin],
                 restoreFile = Some (RestoredFlag True)\<rparr>)"
  by (simp add: restore_def sample_World_def empty_Storage_def upto.simps
      restore_loop.simps createPrivateCoin_def sample_sigmaMint_def
      sample_restored_coin_def writeMintedCoins_def setText_RESTORE_FILE_def)

lemma restore_outcome:
  assumes run: "restore w io key st = (r, st')" and nr: "\<not> restored (restoreFile st)"
  shows "((\<exists>e. r = Inl e) \<and> st' = st)
       \<or> (\<exists>used latest groups c i mintData.
             retrieveUsedCoinSerials w = Inr used
           \<and> retrieveLatestCoinIds w = Inr latest
           \<and> retrieveAllSets w latest 0 = Inr (groups, total_commitments groups)
           \<and> restore_loop io key (serials used) groups (total_commitments groups) 0 (- 1) [] =
                Inr (c, i, mintData)
           \<and> ((writeMintedCoins_fails w \<noteq> None \<and> r = Inr False \<and> st' = st)
              \<or> (writeMintedCoins_fails w = None \<and> setText_fails w \<noteq> None \<and> r = Inr False
                  \<and> st' = st\<lparr>mintedCoins := mintData, mintFile := Some mintData\<rparr>)
              \<or> (writeMintedCoins_fails w = None \<and> setText_fails w = None \<and> r = Inr True
                  \<and> st' = st\<lparr>mintedCoins := mintData, mintFile := Some mintData,
                              restoreFile := Some (RestoredFlag True)\<rparr>)))"
proof (cases "retrieveUsedCoinSerials w")
  case (Inl e)
  with run nr show ?thesis by (auto simp add: restore_def)
next
  case used: (Inr used)
  show ?thesis
  proof (cases "retrieveLatestCoinIds w")
    case (Inl e)
    with run nr used show ?thesis by (auto simp add: restore_def)
  next
    case latest: (Inr latest)
    show ?thesis
    proof (cases "retrieveAllSets w latest 0")
      case (Inl e)
      with run nr used latest show ?thesis by (auto simp add: restore_def)
    next
      case (Inr p)
      obtain groups cc where p: "p = (groups, cc)" by (cases p) auto
      from retrieveAllSets_count[of w latest 0 groups cc] Inr p
      have cc: "cc = total_commitments groups" by simp
      have sets: "retrieveAllSets w latest 0 = Inr (groups, total_commitments groups)"
        using Inr p cc by simp
      show ?thesis
      proof (cases "restore_loop io key (serials used) groups (total_commitments groups) 0 (- 1) []")
        case (Inl e)
        with run nr used latest sets show ?thesis by (auto simp add: restore_def)
      next
        case scan: (Inr q)
        obtain c i mintData where q: "q = (c, i, mintData)" by (cases q) auto
        note scan' = scan[unfolded q]
        show ?thesis
        proof (cases "writeMintedCoins_fails w")
          case (Some e)
          with run nr used latest sets scan' have "r = Inr False \<and> st' = st"
            by (auto simp add: restore_def writeMintedCoins_def)
          with used latest sets scan' Some show ?thesis by blast
        next
          case wr: None
          show ?thesis
          proof (cases "setText_fails w")
            case (Some e)
            with run nr used latest sets scan' wr
            have "r = Inr False \<and> st' = st\<lparr>mintedCoins := mintData, mintFile := Some mintData\<rparr>"
              by (auto simp add: restore_def writeMintedCoins_def setText_RESTORE_FILE_def)
            with used latest sets scan' Some wr show ?thesis by blast
          next
            case None
            with run nr used latest sets scan' wr
            have "r = Inr True \<and> st' = st\<lparr>mintedCoins := mintData, mintFile := Some mintData,
                              restoreFile := Some (RestoredFlag True)\<rparr>"
              by (auto simp add: restore_def writeMintedCoins_def setText_RESTORE_FILE_def)
            with used latest sets scan' None wr show ?thesis by blast
          qed
        qed
      qed
    qed
  qed
qed

lemma map_filter_SomeD: "x \<in> set (List.map_filter f xs) \<Longrightarrow> \<exists>j \<in> set xs. f j = Some x"
  by (auto simp: List.map_filter_def)

lemma scan_hit_fields:
  assumes "scan_hit io key used groups j = Some coin"
  shows "serialNumber coin = '''' \<and> spendTxId coin = '''' \<and> index coin = j"
proof (cases "createPrivateCoin io 100000000 key j")
  case (Inl e)
  with assms show ?thesis by (simp add: scan_hit_def)
next
  case (Inr c)
  with assms show ?thesis by (cases "find (\<lambda>coinInfo. commitment c \<in> set (anonymitySet coinInfo)) groups")
    (auto simp: scan_hit_def)
qed

lemma restore_scan_from_start:
  assumes run: "restore_loop io key used groups (total_commitments groups) 0 (- 1) [] =
          Inr (counter, idx, mintData)"
  shows "(counter = 101 \<and> idx \<le> total_commitments groups
           \<and> (\<forall>j. idx - 100 < j \<and> j \<le> idx \<longrightarrow> scan_hit io key used groups j = None)
           \<and> mintData = List.map_filter (scan_hit io key used groups) [0..idx])
        \<or> (counter \<le> 100 \<and> idx = total_commitments groups + 1
           \<and> (\<forall>j. total_commitments groups - (counter - 1) < j \<and> j \<le> total_commitments groups
                  \<longrightarrow> scan_hit io key used groups j = None)
           \<and> mintData =
               List.map_filter (scan_hit io key used groups) [0..total_commitments groups])"
proof -
  have "- 1 \<le> total_commitments groups" using total_commitments_nonneg[of groups] by simp
  moreover have "\<forall>j. - 1 - 0 < j \<and> j \<le> - 1 \<longrightarrow> scan_hit io key used groups j = None"
    by auto
  ultimately show ?thesis using restore_loop_scan[OF run] by auto
qed

lemma restore_loop_fields:
  assumes "restore_loop io key used groups (total_commitments groups) 0 (- 1) [] = Inr (c, i, mintData)"
    and "coin \<in> set mintData"
  shows "serialNumber coin = '''' \<and> spendTxId coin = ''''"
proof -
  from restore_scan_from_start[OF assms(1)]
  have "\<exists>xs. mintData = List.map_filter (scan_hit io key used groups) xs" by blast
  then obtain xs where "mintData = List.map_filter (scan_hit io key used groups) xs" by blast
  with assms(2) map_filter_SomeD obtain j where "scan_hit io key used groups j = Some coin"
    by fast
  from scan_hit_fields[OF this] show ?thesis by simp
qed

lemma sample_restore_setText_fails:
  "restore failing_setText_World sample_sigmaMint ''key'' empty_Storage =
     (Inr False, \<lparr>mintedCoins = [sample_restored_coin], mintFile = Some [sample_restored_coin],
                  restoreFile = None\<rparr>)"
  by (simp add: restore_def failing_setText_World_def sample_World_def empty_Storage_def upto.simps
      restore_loop.simps createPrivateCoin_def sample_sigmaMint_def
      sample_restored_coin_def writeMintedCoins_def setText_RESTORE_FILE_def)

lemma restore_loop_no_early_stop:
  assumes "restore_loop io key used groups cc c i md = Inr (c', i', md')"
    and "0 \<le> c"
    and "i - c = - 1 \<or> scan_hit io key used groups (i - c) \<noteq> None"
    and "\<forall>j. 99 \<le> j \<and> j < i \<longrightarrow>
            (\<exists>k. j - 100 < k \<and> k \<le> j \<and> scan_hit io key used groups k \<noteq> None)"
  shows "\<forall>j. 99 \<le> j \<and> j < (if 100 < c' then i' else i' - 1) \<longrightarrow>
            (\<exists>k. j - 100 < k \<and> k \<le> j \<and> scan_hit io key used groups k \<noteq> None)"
  using assms
proof (induction io key used groups cc c i md rule: restore_loop.induct)
  case (1 io key used groups cc c i md)
  let ?hit = "scan_hit io key used groups"
  note eq = "1.prems"(1)[unfolded restore_loop.simps[of io key used groups cc c i md]]
  show ?case
  proof (cases "c < 100")
    case False
    with eq have "c' = c + 1" "i' = i" by simp_all
    with False "1.prems"(4) show ?thesis by simp
  next
    case c: True
    show ?thesis
    proof (cases "i < cc")
      case False
      with c eq have "c' = c + 1" "i' = i + 1" by simp_all
      with c "1.prems"(4) show ?thesis by simp
    next
      case i: True
      have windows: "\<forall>j. 99 \<le> j \<and> j < i + 1 \<longrightarrow>
            (\<exists>k. j - 100 < k \<and> k \<le> j \<and> ?hit k \<noteq> None)"
      proof (intro allI impI)
        fix j assume j: "99 \<le> j \<and> j < i + 1"
        show "\<exists>k. j - 100 < k \<and> k \<le> j \<and> ?hit k \<noteq> None"
        proof (cases "j < i")
          case True
          with j "1.prems"(4) show ?thesis by blast
        next
          case False
          with j have ji: "j = i" by simp
          from "1.prems"(3) show ?thesis
          proof
            assume "i - c = - 1"
            with c j ji show ?thesis by simp
          next
            assume "?hit (i - c) \<noteq> None"
            moreover have "j - 100 < i - c" "i - c \<le> j" using c ji "1.prems"(2) by simp_all
            ultimately show ?thesis by blast
          qed
        qed
      qed
      show ?thesis
      proof (cases "createPrivateCoin io 100000000 key (i + 1)")
        case (Inl e)
        with c i eq show ?thesis by simp
      next
        case (Inr coin)
        show ?thesis
        proof (cases "find (\<lambda>coinInfo. commitment coin \<in> set (anonymitySet coinInfo)) groups")
          case None
          from c i Inr None eq have rec:
            "restore_loop io key used groups cc (c + 1) (i + 1) md = Inr (c', i', md')" by simp
          have p2: "i + 1 - (c + 1) = - 1 \<or> ?hit (i + 1 - (c + 1)) \<noteq> None"
            using "1.prems"(3) by simp
          have "0 \<le> c + 1" using "1.prems"(2) by simp
          from "1.IH"(1)[OF c i Inr None rec this p2 windows] show ?thesis .
        next
          case (Some coinInfo)
          let ?rec = "\<lparr>value_c = denom coinInfo, index = i + 1,
                          commitment = commitment coin, serialNumber = '''',
                          groupId = id_g coinInfo,
                          isSpend = (serialNumber coin \<in> set used),
                          spendTxId = ''''\<rparr>"
          have hit: "?hit (i + 1) = Some ?rec" using Inr Some by (simp add: scan_hit_def)
          from c i Inr Some eq have rec:
            "restore_loop io key used groups cc 0 (i + 1) (md @ [?rec]) = Inr (c', i', md')"
            by simp
          have p2: "i + 1 - 0 = - 1 \<or> ?hit (i + 1 - 0) \<noteq> None" using hit by simp
          from "1.IH"(2)[OF c i Inr Some rec _ p2 windows] show ?thesis by simp
        qed
      qed
    qed
  qed
qed

lemma restore_scan_no_early_stop:
  assumes "restore_loop io key used groups cc 0 (- 1) [] = Inr (c', i', md')"
  shows "\<forall>j. 99 \<le> j \<and> j < (if 100 < c' then i' else i' - 1) \<longrightarrow>
            (\<exists>k. j - 100 < k \<and> k \<le> j \<and> scan_hit io key used groups k \<noteq> None)"
proof -
  have a: "(0::int) \<le> 0" by simp
  have b: "- 1 - 0 = (- 1::int) \<or> scan_hit io key used groups (- 1 - 0) \<noteq> None" by simp
  have c: "\<forall>j. 99 \<le> j \<and> j < (- 1::int) \<longrightarrow>
            (\<exists>k. j - 100 < k \<and> k \<le> j \<and> scan_hit io key used groups k \<noteq> None)" by auto
  from restore_loop_no_early_stop[OF assms a b c] show ?thesis .
qed

section \<open>Properties of the group metadata refresh\<close>

lemma mintsToUpdate_Some:
  "mintsToUpdate coins k m c = Some n \<Longrightarrow>
     m c = Some n \<or> (k \<le> n \<and> n < k + length coins \<and> commitment (coins ! (n - k)) = c \<and> c \<noteq> '''')"
proof (induction coins arbitrary: k m)
  case Nil
  then show ?case by simp
next
  case (Cons info rest)
  let ?m1 = "if commitment info \<noteq> '''' then m(commitment info \<mapsto> k) else m"
  from Cons.prems have "mintsToUpdate rest (Suc k) ?m1 c = Some n" by simp
  from Cons.IH[OF this]
  have "?m1 c = Some n \<or> (Suc k \<le> n \<and> n < Suc k + length rest
          \<and> commitment (rest ! (n - Suc k)) = c \<and> c \<noteq> '''')" .
  then show ?case
  proof
    assume "?m1 c = Some n"
    then show ?thesis by (auto split: if_splits)
  next
    assume a: "Suc k \<le> n \<and> n < Suc k + length rest
          \<and> commitment (rest ! (n - Suc k)) = c \<and> c \<noteq> ''''"
    then have "n - k = Suc (n - Suc k)" by arith
    then have "(info # rest) ! (n - k) = rest ! (n - Suc k)"
      by (simp only: nth_Cons_Suc)
    with a show ?thesis by simp
  qed
qed

lemma mintsToUpdate_empty:
  assumes "mintsToUpdate coins 0 Map.empty c = Some n"
  shows "n < length coins \<and> commitment (coins ! n) = c \<and> c \<noteq> ''''"
  using mintsToUpdate_Some[OF assms] by simp

lemma updateGroupIds_nth:
  "updateGroupIds h m datas coins = (err, coins') \<Longrightarrow>
     length coins' = length coins
   \<and> (\<forall>n < length coins.
         coins' ! n = coins ! n
       \<or> (\<exists>data \<in> set datas. m (pubcoin data) = Some n
            \<and> coins' ! n =
                (coins ! n)\<lparr>groupId := (if h - height data \<ge> 5 then groupId_m data else - 1)\<rparr>))"
proof (induction datas arbitrary: coins)
  case Nil
  then show ?case by simp
next
  case (Cons data rest)
  show ?case
  proof (cases "m (pubcoin data)")
    case None
    with Cons.prems show ?thesis by simp
  next
    case (Some k)
    let ?g = "if h - height data \<ge> 5 then groupId_m data else - 1"
    let ?coins1 = "coins[k := (coins ! k)\<lparr>groupId := ?g\<rparr>]"
    from Cons.prems Some have "updateGroupIds h m rest ?coins1 = (err, coins')" by simp
    from Cons.IH[OF this] have len: "length coins' = length coins"
      and IH: "\<forall>n < length coins.
         coins' ! n = ?coins1 ! n
       \<or> (\<exists>d \<in> set rest. m (pubcoin d) = Some n
            \<and> coins' ! n =
                (?coins1 ! n)\<lparr>groupId := (if h - height d \<ge> 5 then groupId_m d else - 1)\<rparr>)"
      by simp_all
    have "\<forall>n < length coins.
         coins' ! n = coins ! n
       \<or> (\<exists>d \<in> set (data # rest). m (pubcoin d) = Some n
            \<and> coins' ! n =
                (coins ! n)\<lparr>groupId := (if h - height d \<ge> 5 then groupId_m d else - 1)\<rparr>)"
    proof (intro allI impI)
      fix n assume n: "n < length coins"
      show "coins' ! n = coins ! n
       \<or> (\<exists>d \<in> set (data # rest). m (pubcoin d) = Some n
            \<and> coins' ! n =
                (coins ! n)\<lparr>groupId := (if h - height d \<ge> 5 then groupId_m d else - 1)\<rparr>)"
      proof (cases "n = k")
        case False
        then have "?coins1 ! n = coins ! n" by simp
        with IH n show ?thesis by (metis list.set_intros(2))
      next
        case True
        then have c1: "?coins1 ! n = (coins ! n)\<lparr>groupId := ?g\<rparr>" using n by simp
        from IH n have "coins' ! n = ?coins1 ! n
            \<or> (\<exists>d \<in> set rest. m (pubcoin d) = Some n
            \<and> coins' ! n =
                (?coins1 ! n)\<lparr>groupId := (if h - height d \<ge> 5 then groupId_m d else - 1)\<rparr>)"
          by blast
        then show ?thesis
        proof
          assume "coins' ! n = ?coins1 ! n"
          with c1 Some True show ?thesis by auto
        next
          assume "\<exists>d \<in> set rest. m (pubcoin d) = Some n
            \<and> coins' ! n =
                (?coins1 ! n)\<lparr>groupId := (if h - height d \<ge> 5 then groupId_m d else - 1)\<rparr>"
          then obtain d where d: "d \<in> set rest" "m (pubcoin d) = Some n"
            "coins' ! n = (?coins1 ! n)\<lparr>groupId := (if h - height d \<ge> 5 then groupId_m d else - 1)\<rparr>"
            by blast
          from d(3) c1 have "coins' ! n =
             (coins ! n)\<lparr>groupId := (if h - height d \<ge> 5 then groupId_m d else - 1)\<rparr>" by simp
          with d(1,2) show ?thesis by auto
        qed
      qed
    qed
    with len show ?thesis by simp
  qed
qed

lemma getMintMetadataLoop_coins:
  assumes "getMintMetadataLoop w st = (r, st')"
  shows "mintedCoins st' = mintedCoins st
       \<or> (\<exists>retrieved err.
             retrieveMintMetadata w (mintsToRetrieve (mintedCoins st)) = Inr retrieved
           \<and> updateGroupIds (getBlockHeight w) (mintsToUpdate (mintedCoins st) 0 Map.empty)
                 retrieved (mintedCoins st) = (err, mintedCoins st'))"
proof (cases "mintsToRetrieve (mintedCoins st) = []")
  case True
  with assms show ?thesis by (auto simp: getMintMetadataLoop_def)
next
  case ne: False
  show ?thesis
  proof (cases "retrieveMintMetadata w (mintsToRetrieve (mintedCoins st))")
    case (Inl e)
    with assms ne show ?thesis by (auto simp: getMintMetadataLoop_def)
  next
    case (Inr retrieved)
    obtain err coins' where u:
      "updateGroupIds (getBlockHeight w) (mintsToUpdate (mintedCoins st) 0 Map.empty)
          retrieved (mintedCoins st) = (err, coins')"
      by (cases "updateGroupIds (getBlockHeight w) (mintsToUpdate (mintedCoins st) 0 Map.empty)
          retrieved (mintedCoins st)") auto
    have "mintedCoins st' = coins'"
    proof (cases err)
      case (Some e)
      with assms ne Inr u show ?thesis by (auto simp: getMintMetadataLoop_def)
    next
      case None
      with assms ne Inr u show ?thesis
        by (cases "writeMintedCoins_fails w") (auto simp: getMintMetadataLoop_def writeMintedCoins_def)
    qed
    with Inr u show ?thesis by blast
  qed
qed

lemma sample_refresh:
  "getMintMetadataLoop sample_World pending_Storage =
     (Inr (), \<lparr>mintedCoins = refreshed_coins, mintFile = Some refreshed_coins,
               restoreFile = Some (RestoredFlag True)\<rparr>)"
  by (simp add: getMintMetadataLoop_def sample_World_def pending_Storage_def refreshed_coins_def
      mintsToRetrieve_def writeMintedCoins_def)

text \<open>
  The group that the restore scan records for a coin is the first entry whose set holds
  the commitment, and the set of an entry is the concatenation of the sets of the groups
  \<open>1, ..., id\<close> of its denomination.
\<close>

lemma scan_hit_find:
  assumes "scan_hit io key used groups j = Some c"
  shows "\<exists>coin coinInfo.
           createPrivateCoin io 100000000 key j = Inr coin
         \<and> find (\<lambda>g. commitment coin \<in> set (anonymitySet g)) groups = Some coinInfo
         \<and> coinInfo \<in> set groups
         \<and> commitment coin \<in> set (anonymitySet coinInfo)
         \<and> commitment c = commitment coin \<and> index c = j
         \<and> value_c c = denom coinInfo \<and> groupId c = id_g coinInfo"
proof (cases "createPrivateCoin io 100000000 key j")
  case (Inl e)
  with assms show ?thesis by (simp add: scan_hit_def)
next
  case (Inr coin)
  show ?thesis
  proof (cases "find (\<lambda>g. commitment coin \<in> set (anonymitySet g)) groups")
    case None
    with assms Inr show ?thesis by (simp add: scan_hit_def)
  next
    case (Some g)
    then have "g \<in> set groups" "commitment coin \<in> set (anonymitySet g)"
      by (auto simp: find_Some_iff)
    moreover from assms Inr Some have
      "c = \<lparr>value_c = denom g, index = j, commitment = commitment coin, serialNumber = '''',
            groupId = id_g g, isSpend = (serialNumber coin \<in> set used), spendTxId = ''''\<rparr>"
      by (simp add: scan_hit_def)
    ultimately show ?thesis using Inr Some by simp
  qed
qed

lemma retrieveGroupSets_merged:
  "retrieveGroupSets w d ids aset cc = Inr (aset', cc') \<Longrightarrow> aset' = aset @ merged_sets w d ids"
proof (induction ids arbitrary: aset cc)
  case Nil
  then show ?case by (simp add: merged_sets_def)
next
  case (Cons i ids)
  show ?case
  proof (cases "retrieveAnonymitySet w d i")
    case (Inl e)
    with Cons.prems show ?thesis by simp
  next
    case (Inr a)
    with Cons.prems have
      "retrieveGroupSets w d ids (aset @ serializedCoins a)
         (cc + int (length (serializedCoins a))) = Inr (aset', cc')" by simp
    from Cons.IH[OF this] show ?thesis using Inr by (simp add: merged_sets_def)
  qed
qed

lemma retrieveAllSets_merged:
  "retrieveAllSets w latest cc = Inr (groups, cc') \<Longrightarrow> groups = merged_groups w latest"
proof (induction latest arbitrary: cc groups cc')
  case Nil
  then show ?case by (simp add: merged_groups_def)
next
  case (Cons coinInfo rest)
  show ?case
  proof (cases "retrieveGroupSets w (denom coinInfo) [1..id_g coinInfo] [] cc")
    case (Inl e)
    with Cons.prems show ?thesis by simp
  next
    case (Inr p)
    obtain aset cc1 where p: "p = (aset, cc1)" by (cases p) auto
    from Inr p have gs:
      "retrieveGroupSets w (denom coinInfo) [1..id_g coinInfo] [] cc = Inr (aset, cc1)" by simp
    from retrieveGroupSets_merged[OF gs]
    have aset: "aset = merged_sets w (denom coinInfo) [1..id_g coinInfo]" by simp
    show ?thesis
    proof (cases "retrieveAllSets w rest cc1")
      case (Inl e)
      with Cons.prems gs show ?thesis by simp
    next
      case (Inr q)
      obtain rest' cc2 where q: "q = (rest', cc2)" by (cases q) auto
      from Inr q have rs: "retrieveAllSets w rest cc1 = Inr (rest', cc2)" by simp
      from Cons.IH[OF rs] have "rest' = merged_groups w rest" .
      moreover from Cons.prems gs rs have "groups = coinInfo\<lparr>anonymitySet := aset\<rparr> # rest'"
        by simp
      ultimately show ?thesis using aset by (simp add: merged_groups_def)
    qed
  qed
qed

lemma restore_written:
  assumes run: "restore w io key st = (r, st')" and nr: "\<not> restored (restoreFile st)"
  shows "st' = st
       \<or> (\<exists>used latest groups c i.
             retrieveUsedCoinSerials w = Inr used
           \<and> retrieveLatestCoinIds w = Inr latest
           \<and> retrieveAllSets w latest 0 = Inr (groups, total_commitments groups)
           \<and> restore_loop io key (serials used) groups (total_commitments groups) 0 (- 1) [] =
                Inr (c, i, mintedCoins st'))"
  using restore_outcome[OF run nr]
proof (elim disjE exE conjE, goal_cases)
  case (1 e)
  then show ?case by simp
next
  case (2 used latest groups c i mintData)
  then show ?case by simp
next
  case (3 used latest groups c i mintData)
  from 3(8) have "mintedCoins st' = mintData" by simp
  with 3(4) have
    "restore_loop io key (serials used) groups (total_commitments groups) 0 (- 1) [] =
       Inr (c, i, mintedCoins st')" by simp
  with 3(1) 3(2) 3(3) show ?case by blast
next
  case (4 used latest groups c i mintData)
  from 4(8) have "mintedCoins st' = mintData" by simp
  with 4(4) have
    "restore_loop io key (serials used) groups (total_commitments groups) 0 (- 1) [] =
       Inr (c, i, mintedCoins st')" by simp
  with 4(1) 4(2) 4(3) show ?case by blast
qed

lemma restore_groupIds:
  assumes run: "restore w io key st = (r, st')"
  shows "st' = st
       \<or> (\<exists>latest. retrieveLatestCoinIds w = Inr latest
            \<and> (\<forall>c \<in> set (mintedCoins st').
                 \<exists>coin coinInfo.
                   createPrivateCoin io 100000000 key (index c) = Inr coin
                 \<and> commitment c = commitment coin
                 \<and> find (\<lambda>g. commitment coin \<in> set (anonymitySet g)) (merged_groups w latest)
                     = Some coinInfo
                 \<and> groupId c = id_g coinInfo))"
proof (cases "restored (restoreFile st)")
  case True
  with run show ?thesis by (simp add: restore_def)
next
  case False
  from restore_written[OF run False] show ?thesis
  proof
    assume "st' = st"
    then show ?thesis by simp
  next
    assume "\<exists>used latest groups c i.
             retrieveUsedCoinSerials w = Inr used
           \<and> retrieveLatestCoinIds w = Inr latest
           \<and> retrieveAllSets w latest 0 = Inr (groups, total_commitments groups)
           \<and> restore_loop io key (serials used) groups (total_commitments groups) 0 (- 1) [] =
                Inr (c, i, mintedCoins st')"
    then obtain used latest groups c i where
      used: "retrieveUsedCoinSerials w = Inr used"
      and latest: "retrieveLatestCoinIds w = Inr latest"
      and sets: "retrieveAllSets w latest 0 = Inr (groups, total_commitments groups)"
      and loop: "restore_loop io key (serials used) groups (total_commitments groups) 0 (- 1) [] =
                Inr (c, i, mintedCoins st')"
      by blast
    from retrieveAllSets_merged[OF sets] have groups: "groups = merged_groups w latest" .
    from restore_scan_from_start[OF loop] obtain x where
      md: "mintedCoins st' = List.map_filter (scan_hit io key (serials used) groups) [0..x]"
      by blast
    have "\<forall>c \<in> set (mintedCoins st').
               \<exists>coin coinInfo.
                 createPrivateCoin io 100000000 key (index c) = Inr coin
               \<and> commitment c = commitment coin
               \<and> find (\<lambda>g. commitment coin \<in> set (anonymitySet g)) (merged_groups w latest)
                   = Some coinInfo
               \<and> groupId c = id_g coinInfo"
    proof
      fix c assume "c \<in> set (mintedCoins st')"
      with md have "c \<in> set (List.map_filter (scan_hit io key (serials used) groups) [0..x])"
        by simp
      from map_filter_SomeD[OF this] obtain j where
        "scan_hit io key (serials used) groups j = Some c" by blast
      from scan_hit_find[OF this] groups
      show "\<exists>coin coinInfo.
                 createPrivateCoin io 100000000 key (index c) = Inr coin
               \<and> commitment c = commitment coin
               \<and> find (\<lambda>g. commitment coin \<in> set (anonymitySet g)) (merged_groups w latest)
                   = Some coinInfo
               \<and> groupId c = id_g coinInfo"
        by auto
    qed
    with latest show ?thesis by blast
  qed
qed

lemma merged_groups_id:
  "map id_g (merged_groups w latest) = map id_g latest"
  "map denom (merged_groups w latest) = map denom latest"
  by (simp_all add: merged_groups_def)

lemma two_group_restore:
  "restore two_group_World sample_sigmaMint ''key'' empty_Storage =
     (Inr True, \<lparr>mintedCoins = [two_group_restored_coin],
                 mintFile = Some [two_group_restored_coin],
                 restoreFile = Some (RestoredFlag True)\<rparr>)"
  by (simp add: restore_def two_group_World_def empty_Storage_def upto.simps
      restore_loop.simps createPrivateCoin_def sample_sigmaMint_def
      two_group_restored_coin_def writeMintedCoins_def setText_RESTORE_FILE_def)

section \<open>Properties of minting\<close>

lemma sample_makeMint:
  "makeMint sample_Engine sample_sigmaMint (sample_target 10000000) default_TxOptions =
     Some (Inr \<lparr>txJson = \<lparr>outputs_m = [\<lparr>address_m = None, script_m = ''c3c1'', value_m = 10000000\<rparr>],
                          fee_m = 1000\<rparr>,
                isSpend_tx = False, mintsForSave = [sample_minted_coin], networkFee = 1000\<rparr>)"
  by (simp add: makeMint_def makeMint_try_def makeMint_catch_def sample_Engine_def
      sample_target_def default_TxOptions_def amountOf_def sumUtxos_def js_nth_def
      getMintCommitmentsForValue_def denominations_def mintWhile.simps createPrivateCoin_def
      js_increment_exact to_double_exact
      sample_sigmaMint_def sample_minted_coin_def OP_SIGMA_MINT_def)

lemma sample_makeMint_15:
  "makeMint sample_Engine sample_sigmaMint (sample_target 15000000) default_TxOptions =
     Some (Inl (Error ''InsufficientFundsError''))"
  by (simp add: makeMint_def makeMint_try_def makeMint_catch_def sample_Engine_def
      sample_target_def default_TxOptions_def amountOf_def sumUtxos_def js_nth_def
      getMintCommitmentsForValue_def denominations_def mintWhile.simps createPrivateCoin_def
      js_increment_exact to_double_exact
      sample_sigmaMint_def sample_minted_coin_def OP_SIGMA_MINT_def)

lemma sample_mint:
  "mint sample_Engine sample_sigmaMint (sample_target 20000000) =
     Some (Inr ([20000000, 15000000, 10000000], Saved))"
  by (simp add: mint_def mint_with_def mint_loop.simps firstAmount_def lowerFirstAmount_def
      makeMint_def makeMint_try_def makeMint_catch_def sample_Engine_def
      sample_target_def default_TxOptions_def amountOf_def sumUtxos_def js_nth_def
      getMintCommitmentsForValue_def denominations_def mintWhile.simps createPrivateCoin_def
      js_increment_exact to_double_exact
      sample_sigmaMint_def sample_minted_coin_def OP_SIGMA_MINT_def)

lemma makeMint_targets_mints:
  assumes "makeMint_targets io key cur ts outs mints = Some (Inr (outs', mints'))"
  shows "(ts = [] \<and> mints' = mints)
       \<or> (ts \<noteq> [] \<and> (\<exists>ms. getMintCommitmentsForValue denominations io (amountOf (last ts)) key cur
                              = Some (Inr ms)
                         \<and> mints' = map (\<lambda>coin. coin\<lparr>groupId := - 1, isSpend := False,
                                                     spendTxId := ''''\<rparr>) ms))"
  using assms
proof (induction ts arbitrary: outs mints)
  case Nil
  then show ?case by simp
next
  case (Cons t ts)
  show ?case
  proof (cases "getMintCommitmentsForValue denominations io (amountOf t) key cur")
    case None
    with Cons.prems show ?thesis by simp
  next
    case (Some y)
    show ?thesis
    proof (cases y)
      case (Inl e)
      with Some Cons.prems show ?thesis by simp
    next
      case (Inr ms)
      let ?ms' = "map (\<lambda>coin. coin\<lparr>groupId := - 1, isSpend := False, spendTxId := ''''\<rparr>) ms"
      from Cons.prems Some Inr obtain outs1 where
        rec: "makeMint_targets io key cur ts outs1 ?ms' = Some (Inr (outs', mints'))"
        by simp
      from Cons.IH[OF rec] show ?thesis
      proof
        assume "ts = [] \<and> mints' = ?ms'"
        with Some Inr show ?thesis by auto
      next
        assume "ts \<noteq> [] \<and> (\<exists>ms. getMintCommitmentsForValue denominations io (amountOf (last ts)) key cur
                              = Some (Inr ms)
                         \<and> mints' = map (\<lambda>coin. coin\<lparr>groupId := - 1, isSpend := False,
                                                     spendTxId := ''''\<rparr>) ms)"
        then show ?thesis by auto
      qed
    qed
  qed
qed

lemma makeMint_mintsForSave:
  assumes "makeMint eng io info opts = Some (Inr t)"
  shows "\<exists>outs. makeMint_targets io (dataKey_e eng) (getLastPrivateCoinIndex eng)
             (spendTargets info) [] [] = Some (Inr (outs, mintsForSave t))"
proof -
  let ?utxos = "case utxos_o opts of None \<Rightarrow> getUTXOs eng | Some us \<Rightarrow> us"
  from assms have a: "\<not> (CPFP opts = '''' \<and> spendTargets info = [])"
    by (auto simp: makeMint_def)
  from assms a obtain available where "sumUtxos ?utxos = Inr available"
    by (cases "sumUtxos ?utxos") (auto simp: makeMint_def Let_def)
  with assms a have "map_option makeMint_catch (makeMint_try eng io info opts ?utxos) = Some (Inr t)"
    by (auto simp: makeMint_def Let_def split: if_splits)
  then obtain y where y: "makeMint_try eng io info opts ?utxos = Some y" "makeMint_catch y = Inr t"
    by auto
  from y(2) have "y = Inr t" by (cases y) (auto simp: makeMint_catch_def split: if_splits)
  with y(1) have tr: "makeMint_try eng io info opts ?utxos = Some (Inr t)" by simp
  show ?thesis
  proof (cases "makeMint_targets io (dataKey_e eng) (getLastPrivateCoinIndex eng)
             (spendTargets info) [] []")
    case None
    with tr show ?thesis by (simp add: makeMint_try_def)
  next
    case (Some z)
    show ?thesis
    proof (cases z)
      case (Inl e)
      with Some tr show ?thesis by (simp add: makeMint_try_def)
    next
      case (Inr p)
      obtain outs mints where p: "p = (outs, mints)" by (cases p) auto
      show ?thesis
      proof (cases "keyManager_createTX eng outs ?utxos opts")
        case (Inl e)
        with Some Inr p tr show ?thesis by (simp add: makeMint_try_def)
      next
        case Inr2: (Inr bcoinTx)
        show ?thesis
        proof (cases "patchOutputs [0..<length outs] mints (outputs_m bcoinTx)")
          case (Inl e)
          with Some Inr p Inr2 tr show ?thesis by (simp add: makeMint_try_def)
        next
          case (Inr patched)
          with Some \<open>z = Inr p\<close> p Inr2 tr have "mintsForSave t = mints"
            by (auto simp: makeMint_try_def)
          with Some \<open>z = Inr p\<close> p show ?thesis by simp
        qed
      qed
    qed
  qed
qed

lemma denominations_0: "denominations ! 0 = 5000000"
  by (simp add: denominations_def)

lemma firstAmount_lower:
  "spendTargets info \<noteq> [] \<Longrightarrow>
     firstAmount (lowerFirstAmount info) = firstAmount info - denominations ! 0
   \<and> spendTargets (lowerFirstAmount info) \<noteq> []"
  by (cases "spendTargets info") (auto simp: firstAmount_def lowerFirstAmount_def amountOf_def)

lemma mint_trace_single:
  assumes "attempt_final mk info (firstAmount info) res"
  shows "mint_trace mk info res [firstAmount info]"
  using assms by (simp add: mint_trace_def)

lemma mint_trace_step:
  assumes ne: "spendTargets info \<noteq> []"
    and retried: "attempt_retried mk info (firstAmount info)"
    and rest: "mint_trace mk (lowerFirstAmount info) res new"
  shows "mint_trace mk info res (firstAmount info # new)"
proof -
  let ?a = "firstAmount info" and ?lo = "lowerFirstAmount info"
  from rest have new: "new \<noteq> []"
    and nth: "\<forall>n < length new. new ! n = firstAmount ?lo - int n * (denominations ! 0)"
    and ret: "\<forall>n. Suc n < length new \<longrightarrow> attempt_retried mk ((lowerFirstAmount ^^ n) ?lo) (new ! n)"
    and fin: "attempt_final mk ((lowerFirstAmount ^^ (length new - 1)) ?lo) (last new) res"
    unfolding mint_trace_def by blast+
  have pow: "\<And>n. (lowerFirstAmount ^^ n) ?lo = (lowerFirstAmount ^^ Suc n) info"
    by (simp add: funpow_swap1)
  have a: "\<forall>n < length (?a # new). (?a # new) ! n = ?a - int n * (denominations ! 0)"
  proof (intro allI impI)
    fix n assume n: "n < length (?a # new)"
    show "(?a # new) ! n = ?a - int n * (denominations ! 0)"
    proof (cases n)
      case 0
      then show ?thesis by simp
    next
      case (Suc m)
      with n nth have "new ! m = firstAmount ?lo - int m * (denominations ! 0)" by simp
      with Suc firstAmount_lower[OF ne] show ?thesis by (simp add: algebra_simps)
    qed
  qed
  have b: "\<forall>n. Suc n < length (?a # new) \<longrightarrow>
             attempt_retried mk ((lowerFirstAmount ^^ n) info) ((?a # new) ! n)"
  proof (intro allI impI)
    fix n assume n: "Suc n < length (?a # new)"
    show "attempt_retried mk ((lowerFirstAmount ^^ n) info) ((?a # new) ! n)"
    proof (cases n)
      case 0
      then show ?thesis using retried by simp
    next
      case (Suc m)
      with n ret have "attempt_retried mk ((lowerFirstAmount ^^ m) ?lo) (new ! m)" by simp
      with Suc show ?thesis by (simp add: funpow_swap1)
    qed
  qed
  from new obtain k where k: "length new = Suc k" by (cases new) auto
  have "(lowerFirstAmount ^^ (length (?a # new) - 1)) info = (lowerFirstAmount ^^ k) ?lo"
    using k by (simp add: funpow_swap1)
  moreover have "(lowerFirstAmount ^^ (length new - 1)) ?lo = (lowerFirstAmount ^^ k) ?lo"
    using k by simp
  moreover have "last (?a # new) = last new" using new by simp
  ultimately have c: "attempt_final mk ((lowerFirstAmount ^^ (length (?a # new) - 1)) info)
                  (last (?a # new)) res"
    using fin by (simp only:)
  from a b c show ?thesis unfolding mint_trace_def by blast
qed

lemma mint_loop_trace:
  assumes "spendTargets info \<noteq> []" and "\<forall>i. mk i \<noteq> None"
  shows "\<exists>res new. mint_loop mk info tried = Some (Inr (res, tried @ new))
                 \<and> mint_trace mk info res new"
  using assms
proof (induction mk info tried rule: mint_loop.induct)
  case (1 mk info tried)
  note simps = mint_loop.simps[of mk info tried]
  from "1.prems"(2) have "mk info \<noteq> None" by blast
  then obtain y where y: "mk info = Some y" by (cases "mk info") auto
  show ?case
  proof (cases y)
    case (Inr t)
    with y have "mint_loop mk info tried = Some (Inr (Some t, tried @ [firstAmount info]))"
      by (subst simps) simp
    moreover from y Inr have "attempt_final mk info (firstAmount info) (Some t)"
      by (simp add: attempt_final_def)
    ultimately show ?thesis using mint_trace_single by blast
  next
    case (Inl e)
    show ?thesis
    proof (cases "message e = ''InsufficientFundsError'' \<and> denominations ! 0 < firstAmount info")
      case False
      with y Inl "1.prems"(1)
      have "mint_loop mk info tried = Some (Inr (None, tried @ [firstAmount info]))"
        by (subst simps) auto
      moreover from y Inl False have "attempt_final mk info (firstAmount info) None"
        by (simp add: attempt_final_def)
      ultimately show ?thesis using mint_trace_single by blast
    next
      case True
      then have m: "message e = ''InsufficientFundsError''"
        and gt: "denominations ! 0 < firstAmount info" by simp_all
      from y Inl m gt "1.prems"(1)
      have unfold: "mint_loop mk info tried =
          mint_loop mk (lowerFirstAmount info) (tried @ [firstAmount info])"
        by (subst simps) simp
      have ne': "spendTargets (lowerFirstAmount info) \<noteq> []"
        using firstAmount_lower[OF "1.prems"(1)] by simp
      from "1.IH"[OF y Inl m "1.prems"(1) gt ne' "1.prems"(2)]
      obtain res new where
        r: "mint_loop mk (lowerFirstAmount info) (tried @ [firstAmount info]) =
              Some (Inr (res, (tried @ [firstAmount info]) @ new))"
        and tr: "mint_trace mk (lowerFirstAmount info) res new" by blast
      have "attempt_retried mk info (firstAmount info)"
        using y Inl m gt by (simp add: attempt_retried_def)
      from mint_trace_step[OF "1.prems"(1) this tr] unfold r show ?thesis by auto
    qed
  qed
qed

lemma mintLadder_returns:
  "\<forall>d \<in> set ds. 0 < d \<Longrightarrow> \<exists>y. mintLadder io k ds v i r = Some y"
proof (induction ds arbitrary: v i r)
  case Nil
  then show ?case by simp
next
  case (Cons d ds)
  then have "0 < d" by simp
  from mintWhile_returns[OF this] obtain w where w: "mintWhile io k d v i r = Some w" by blast
  show ?case
  proof (cases w)
    case (Inl e)
    with w show ?thesis by simp
  next
    case (Inr t)
    obtain v1 i1 r1 where "t = (v1, i1, r1)" by (cases t) auto
    moreover from Cons obtain y where "mintLadder io k ds v1 i1 r1 = Some y" by fastforce
    ultimately show ?thesis using w Inr by simp
  qed
qed

lemma getMintCommitmentsForValue_not_None:
  "getMintCommitmentsForValue denominations io v k i \<noteq> None"
proof -
  have "\<forall>d \<in> set (rev denominations). 0 < d" by (simp add: denominations_def)
  from mintLadder_returns[OF this] obtain y where
    y: "mintLadder io k (rev denominations) v i [] = Some y" by blast
  show ?thesis
  proof (cases y)
    case (Inl e)
    with y show ?thesis by (simp add: getMintCommitmentsForValue_def)
  next
    case (Inr t)
    obtain v1 i1 r1 where "t = (v1, i1, r1)" by (cases t) auto
    with y Inr show ?thesis by (simp add: getMintCommitmentsForValue_def)
  qed
qed

lemma makeMint_targets_not_None:
  "makeMint_targets io k cur ts outs mints \<noteq> None"
proof (induction ts arbitrary: outs mints)
  case Nil
  then show ?case by simp
next
  case (Cons t ts)
  from getMintCommitmentsForValue_not_None obtain y where
    y: "getMintCommitmentsForValue denominations io (amountOf t) k cur = Some y" by blast
  show ?case
  proof (cases y)
    case (Inl e)
    with y show ?thesis by simp
  next
    case (Inr ms)
    with y Cons show ?thesis by simp
  qed
qed

lemma makeMint_not_None: "makeMint eng io info opts \<noteq> None"
proof -
  let ?utxos = "case utxos_o opts of None \<Rightarrow> getUTXOs eng | Some us \<Rightarrow> us"
  from makeMint_targets_not_None obtain y where
    t: "makeMint_targets io (dataKey_e eng) (getLastPrivateCoinIndex eng) (spendTargets info) [] []
         = Some y" by blast
  have "makeMint_try eng io info opts ?utxos \<noteq> None"
  proof (cases y)
    case (Inl e)
    with t show ?thesis by (simp add: makeMint_try_def)
  next
    case (Inr p)
    obtain outs mints where p: "p = (outs, mints)" by (cases p) auto
    show ?thesis
    proof (cases "keyManager_createTX eng outs ?utxos opts")
      case (Inl e)
      with t Inr p show ?thesis by (simp add: makeMint_try_def)
    next
      case Inr2: (Inr bcoinTx)
      with t Inr p show ?thesis
        by (cases "patchOutputs [0..<length outs] mints (outputs_m bcoinTx)")
           (simp_all add: makeMint_try_def)
    qed
  qed
  then show ?thesis
    by (cases "sumUtxos ?utxos") (auto simp: makeMint_def Let_def)
qed

lemma mint_with_retries:
  assumes ne: "spendTargets info \<noteq> []" and ret: "\<forall>i. mk i \<noteq> None"
  shows "\<exists>tried ending.
       mint_with mk eng info = Some (Inr (tried, ending))
     \<and> tried \<noteq> []
     \<and> (\<forall>n < length tried. tried ! n = firstAmount info - int n * (denominations ! 0))
     \<and> (\<forall>n. Suc n < length tried \<longrightarrow>
           (\<exists>e. mk ((lowerFirstAmount ^^ n) info) = Some (Inl e)
               \<and> message e = ''InsufficientFundsError'' \<and> denominations ! 0 < tried ! n))
     \<and> (\<forall>n < length tried. \<forall>e. mk ((lowerFirstAmount ^^ n) info) = Some (Inl e) \<longrightarrow>
           (message e = ''InsufficientFundsError'' \<and> denominations ! 0 < tried ! n
              \<longrightarrow> Suc n < length tried)
         \<and> (message e \<noteq> ''InsufficientFundsError''
              \<longrightarrow> Suc n = length tried \<and> ending = Abandoned))"
proof -
  from mint_loop_trace[OF ne ret, of "[]"] obtain res tried where
    loop: "mint_loop mk info [] = Some (Inr (res, tried))" and tr: "mint_trace mk info res tried"
    by auto
  from tr have t1: "tried \<noteq> []"
    and t2: "\<forall>n < length tried. tried ! n = firstAmount info - int n * (denominations ! 0)"
    and t3: "\<forall>n. Suc n < length tried \<longrightarrow>
             attempt_retried mk ((lowerFirstAmount ^^ n) info) (tried ! n)"
    and t4: "attempt_final mk ((lowerFirstAmount ^^ (length tried - 1)) info) (last tried) res"
    unfolding mint_trace_def by blast+
  obtain ending where m: "mint_with mk eng info = Some (Inr (tried, ending))"
    and ab: "res = None \<longrightarrow> ending = Abandoned"
  proof (cases res)
    case None
    with loop have "mint_with mk eng info = Some (Inr (tried, Abandoned))"
      by (simp add: mint_with_def)
    with None that show ?thesis by blast
  next
    case (Some t)
    with loop have "\<exists>ending. mint_with mk eng info = Some (Inr (tried, ending))"
      by (auto simp: mint_with_def split: sum.splits)
    with Some that show ?thesis by auto
  qed
  have last: "last tried = tried ! (length tried - 1)" using t1 by (simp add: last_conv_nth)
  have c3: "\<forall>n. Suc n < length tried \<longrightarrow>
           (\<exists>e. mk ((lowerFirstAmount ^^ n) info) = Some (Inl e)
               \<and> message e = ''InsufficientFundsError'' \<and> denominations ! 0 < tried ! n)"
    using t3 by (simp add: attempt_retried_def)
  have c4: "\<forall>n < length tried. \<forall>e. mk ((lowerFirstAmount ^^ n) info) = Some (Inl e) \<longrightarrow>
           (message e = ''InsufficientFundsError'' \<and> denominations ! 0 < tried ! n
              \<longrightarrow> Suc n < length tried)
         \<and> (message e \<noteq> ''InsufficientFundsError''
              \<longrightarrow> Suc n = length tried \<and> ending = Abandoned)"
  proof (intro allI impI)
    fix n e
    assume n: "n < length tried" and e: "mk ((lowerFirstAmount ^^ n) info) = Some (Inl e)"
    show "(message e = ''InsufficientFundsError'' \<and> denominations ! 0 < tried ! n
              \<longrightarrow> Suc n < length tried)
         \<and> (message e \<noteq> ''InsufficientFundsError''
              \<longrightarrow> Suc n = length tried \<and> ending = Abandoned)"
    proof (cases "Suc n < length tried")
      case True
      with c3 e show ?thesis by auto
    next
      case False
      with n have nl: "n = length tried - 1" "Suc n = length tried" by simp_all
      from t4 e nl(1) last have "res = None
          \<and> \<not> (message e = ''InsufficientFundsError'' \<and> denominations ! 0 < tried ! n)"
        by (auto simp: attempt_final_def)
      with ab nl(2) show ?thesis by auto
    qed
  qed
  from m t1 t2 c3 c4 show ?thesis by blast
qed

section \<open>Properties of the spend selection\<close>

lemma takeCovering_result:
  "takeCovering cs need taken \<noteq> [] \<Longrightarrow>
     \<exists>n. 0 < n \<and> n \<le> length cs \<and> takeCovering cs need taken = taken @ take n cs
        \<and> need \<le> sum_list (map value_c (take n cs))"
proof (induction cs arbitrary: need taken)
  case Nil
  then show ?case by simp
next
  case (Cons c cs)
  show ?case
  proof (cases "need \<le> value_c c")
    case True
    then have "takeCovering (c # cs) need taken = taken @ take 1 (c # cs)
        \<and> need \<le> sum_list (map value_c (take 1 (c # cs)))" by simp
    then show ?thesis by (intro exI[of _ 1]) simp
  next
    case False
    then have eq: "takeCovering (c # cs) need taken = takeCovering cs (need - value_c c) (taken @ [c])"
      by simp
    with Cons.prems have "takeCovering cs (need - value_c c) (taken @ [c]) \<noteq> []" by simp
    from Cons.IH[OF this] obtain n where n: "0 < n" "n \<le> length cs"
      "takeCovering cs (need - value_c c) (taken @ [c]) = (taken @ [c]) @ take n cs"
      "need - value_c c \<le> sum_list (map value_c (take n cs))" by blast
    then have "takeCovering (c # cs) need taken = taken @ take (Suc n) (c # cs)
        \<and> need \<le> sum_list (map value_c (take (Suc n) (c # cs)))"
      using eq by simp
    with n(2) show ?thesis by (intro exI[of _ "Suc n"]) simp
  qed
qed

lemma takeCovering_empty:
  "takeCovering cs need taken = [] \<Longrightarrow> cs = [] \<or> sum_list (map value_c cs) < need"
proof (induction cs arbitrary: need taken)
  case Nil
  then show ?case by simp
next
  case (Cons c cs)
  then have nc: "\<not> need \<le> value_c c" by (auto split: if_splits)
  with Cons.prems have "takeCovering cs (need - value_c c) (taken @ [c]) = []" by simp
  from Cons.IH[OF this] nc show ?case by auto
qed

lemma sum_list_map_mset:
  "mset xs = mset ys \<Longrightarrow> sum_list (map f xs) = (sum_list (map f ys) :: int)"
proof -
  assume "mset xs = mset ys"
  then have "mset (map f xs) = mset (map f ys)" by simp
  then have "sum_mset (mset (map f xs)) = sum_mset (mset (map f ys))" by simp
  then show ?thesis by (simp only: sum_mset_sum_list)
qed

lemma sum_mset_nonneg_int: "(\<forall>x \<in># M. 0 \<le> x) \<Longrightarrow> 0 \<le> (sum_mset M :: int)"
  by (induction M) auto

lemma sum_list_submset_le:
  assumes sub: "mset sub \<subseteq># mset xs" and nn: "\<forall>x \<in> set xs. 0 \<le> f x"
  shows "sum_list (map f sub) \<le> (sum_list (map f xs) :: int)"
proof -
  let ?rest = "mset xs - mset sub"
  have split: "mset xs = mset sub + ?rest" using sub by simp
  have "sum_mset (image_mset f (mset xs)) =
          sum_mset (image_mset f (mset sub)) + sum_mset (image_mset f ?rest)"
    by (subst split) simp
  moreover have "0 \<le> sum_mset (image_mset f ?rest)"
  proof (rule sum_mset_nonneg_int, rule ballI)
    fix y assume "y \<in># image_mset f ?rest"
    then obtain x where "x \<in># ?rest" "y = f x" by auto
    then have "x \<in># mset xs" by (auto dest: in_diffD)
    then have "x \<in> set xs" by simp
    with nn \<open>y = f x\<close> show "0 \<le> y" by simp
  qed
  moreover have "sum_mset (image_mset f (mset xs)) = sum_list (map f xs)"
    "sum_mset (image_mset f (mset sub)) = sum_list (map f sub)"
    by (simp_all flip: mset_map add: sum_mset_sum_list)
  ultimately show ?thesis by simp
qed

lemma getMintsToSpend_sound:
  assumes "getMintsToSpend approved target \<noteq> []"
  shows "mset (getMintsToSpend approved target) \<subseteq># mset approved
       \<and> target \<le> sum_list (map value_c (getMintsToSpend approved target))"
proof -
  let ?sorted = "sort_key (\<lambda>c. - value_c c) approved"
  from assms have "takeCovering ?sorted target [] \<noteq> []" by (simp add: getMintsToSpend_def)
  from takeCovering_result[OF this] obtain n where
    n: "takeCovering ?sorted target [] = [] @ take n ?sorted"
       "target \<le> sum_list (map value_c (take n ?sorted))" by blast
  have "mset (take n ?sorted) \<subseteq># mset ?sorted"
    by (metis append_take_drop_id mset_append mset_subset_eq_add_left)
  then have "mset (take n ?sorted) \<subseteq># mset approved" by simp
  with n show ?thesis by (simp add: getMintsToSpend_def)
qed

lemma getMintsToSpend_complete:
  assumes nn: "\<forall>c \<in> set approved. 0 \<le> value_c c"
    and sub: "sub \<noteq> []" "mset sub \<subseteq># mset approved"
    and cover: "target \<le> sum_list (map value_c sub)"
  shows "getMintsToSpend approved target \<noteq> []"
proof
  let ?sorted = "sort_key (\<lambda>c. - value_c c) approved"
  assume "getMintsToSpend approved target = []"
  then have "takeCovering ?sorted target [] = []" by (simp add: getMintsToSpend_def)
  from takeCovering_empty[OF this] have "?sorted = [] \<or> sum_list (map value_c ?sorted) < target" .
  then show False
  proof
    assume "?sorted = []"
    then have "mset ?sorted = {#}" by simp
    then have "approved = []" by simp
    with sub show False by simp
  next
    assume lt: "sum_list (map value_c ?sorted) < target"
    have "sum_list (map value_c ?sorted) = sum_list (map value_c approved)"
      by (rule sum_list_map_mset) simp
    moreover from sum_list_submset_le[OF sub(2) nn]
    have "sum_list (map value_c sub) \<le> sum_list (map value_c approved)" .
    ultimately show False using lt cover by simp
  qed
qed

lemma sample_selection:
  "makeSpend_mintsToBeSpend [coin_A, coin_B, coin_C, coin_D, coin_E] (sample_target 350)
     default_TxOptions = Inr [coin_E, coin_A]"
  by (simp add: makeSpend_mintsToBeSpend_def approvedMints_def getMintsToSpend_def
      sample_target_def default_TxOptions_def amountOf_def
      coin_A_def coin_B_def coin_C_def coin_D_def coin_E_def)

lemma sample_selection_B:
  "makeSpend_mintsToBeSpend [coin_B] (sample_target 100) default_TxOptions =
     Inl (Error ''InsufficientFundsError'')"
  by (simp add: makeSpend_mintsToBeSpend_def approvedMints_def getMintsToSpend_def
      sample_target_def default_TxOptions_def amountOf_def coin_B_def)

lemma makeSpend_cases:
  assumes "CPFP opts \<noteq> '''' \<or> spendTargets info \<noteq> []"
  shows "makeSpend_mintsToBeSpend mintData info opts =
           (if getMintsToSpend (approvedMints mintData)
                 (sum_list (map amountOf (spendTargets info))) = []
            then Inl (Error ''InsufficientFundsError'')
            else Inr (getMintsToSpend (approvedMints mintData)
                        (sum_list (map amountOf (spendTargets info)))))"
  using assms by (auto simp: makeSpend_mintsToBeSpend_def Let_def)

lemma makeSpend_Inr:
  assumes "makeSpend_mintsToBeSpend mintData info opts = Inr sel"
  shows "sel \<noteq> [] \<and> sel = getMintsToSpend (approvedMints mintData)
                              (sum_list (map amountOf (spendTargets info)))"
  using assms by (auto simp: makeSpend_mintsToBeSpend_def Let_def split: if_splits)

section \<open>Properties of the CPFP branch of the transaction builder\<close>

text \<open>The comparator never yields a number, so the sort leaves the order as it is.\<close>

lemma parseInt_TxOut: "parseInt (toString_TxOut out) = NaN"
  by (cases out) (simp_all add: parseInt_def toString_TxOut_def is_digit_def)

lemma cpfp_compare_NaN: "cpfp_compare a b = NaN"
  by (simp add: cpfp_compare_def parseInt_TxOut)

lemma js_insert_cpfp: "js_insert cpfp_compare x ys = x # ys"
  by (cases ys) (simp_all add: cpfp_compare_NaN)

lemma js_sort_cpfp: "js_sort cpfp_compare utxos = utxos"
  by (induction utxos) (simp_all add: js_sort_def js_insert_cpfp)

lemma parseInt_digits: "parseInt ''5000'' = Num 5000" "parseInt '' -12abc'' = Num (- 12)"
  by (simp_all add: parseInt_def is_digit_def digit_val_def)

section \<open>Claims about the denomination of a mint\<close>

text \<open>
  Claim C4, as amended. For a target value that is not negative, a non-empty ascending
  ladder of positive denominations, none above \<open>2^53\<close>, an oracle that answers, and an
  integer start index of at least \<open>-2^53\<close> such that the start index plus the number of coins of the
  decomposition does not exceed \<open>2^53\<close> (the range in which a JavaScript number counts
  exactly), \<open>getMintCommitmentsForValue\<close> returns a list of coins whose values are the
  greedy decomposition of the value over the ladder taken from its last (largest) to its
  first (smallest) denomination, hence in descending order; the values sum to the value
  minus a remainder that is at least \<open>0\<close> and below the smallest denomination; the
  \<open>n\<close>-th coin carries the index \<open>startIndex + 1 + n\<close>, one index per coin. The function
  returns the list only: the final index (\<open>startIndex\<close> plus the number of coins) and the
  remainder are the last state of the loop and are not part of what is returned.
\<close>

theorem getMintCommitmentsForValue_greedy:
  assumes v: "0 \<le> v" and ne: "ladder \<noteq> []"
    and pos: "\<forall>d \<in> set ladder. 0 < d \<and> d \<le> 9007199254740992"
    and asc: "sorted ladder" and ok: "oracle_total io privateKey"
    and lo: "- 9007199254740992 \<le> startIndex"
    and hi: "startIndex + int (length (greedy_units (rev ladder) v)) \<le> 9007199254740992"
  shows "\<exists>coins.
           getMintCommitmentsForValue ladder io v privateKey startIndex = Some (Inr coins)
         \<and> mintLadder io privateKey (rev ladder) v startIndex [] =
             Some (Inr (greedy_remainder (rev ladder) v, startIndex + int (length coins), coins))
         \<and> map value_c coins = greedy_units (rev ladder) v
         \<and> sorted_wrt (\<ge>) (map value_c coins)
         \<and> sum_list (map value_c coins) = v - greedy_remainder (rev ladder) v
         \<and> 0 \<le> greedy_remainder (rev ladder) v
         \<and> greedy_remainder (rev ladder) v < Min (set ladder)
         \<and> (\<forall>n < length coins. index (coins ! n) = startIndex + 1 + int n)"
proof -
  have pos': "\<forall>d \<in> set (rev ladder). 0 < d" using pos by simp
  have exact: "\<forall>d \<in> set (rev ladder). to_double d = d"
  proof
    fix d assume "d \<in> set (rev ladder)"
    with pos have "0 < d" "d \<le> 9007199254740992" by simp_all
    then show "to_double d = d" by (intro to_double_exact) simp
  qed
  from pos' exact have pe: "\<forall>d \<in> set (rev ladder). 0 < d \<and> to_double d = d" by blast
  from mintLadder_returns_Inr[OF ok pos'] obtain v' i' coins where
    ml: "mintLadder io privateKey (rev ladder) v startIndex [] = Some (Inr (v', i', coins))"
    by blast
  note p = ml_post_Nil[OF mintLadder_partial[OF ml]]
  from p have raw1: "i' = (js_increment ^^ length coins) startIndex" by blast
  from p exact have post2: "sum_list (map value_c coins) = v - v'" by blast
  from p v have post3: "0 \<le> v'" by blast
  from p have post4: "\<forall>d \<in> set (rev ladder). v' < d" by blast
  from p have raw5: "\<forall>n < length coins. index (coins ! n) = (js_increment ^^ Suc n) startIndex"
    by blast
  from p pe v have post6: "map value_c coins = greedy_units (rev ladder) v"
    and post7: "v' = greedy_remainder (rev ladder) v" by blast+
  from post6 have "length coins = length (greedy_units (rev ladder) v)"
    by (metis length_map)
  with hi have hi': "startIndex + int (length coins) \<le> 9007199254740992" by simp
  from raw1 js_increment_funpow[OF lo hi'] have post1: "i' = startIndex + int (length coins)"
    by simp
  have post5: "\<forall>n < length coins. index (coins ! n) = startIndex + 1 + int n"
  proof (intro allI impI)
    fix n assume n: "n < length coins"
    then have "startIndex + int (Suc n) \<le> 9007199254740992" using hi' by simp
    from js_increment_funpow[OF lo this] raw5 n
    show "index (coins ! n) = startIndex + 1 + int n" by simp
  qed
  have ret: "getMintCommitmentsForValue ladder io v privateKey startIndex = Some (Inr coins)"
    using ml by (simp add: getMintCommitmentsForValue_def)
  have "Min (set ladder) \<in> set ladder" using ne by simp
  then have small: "v' < Min (set ladder)" using post4 by simp
  have "sorted_wrt (\<ge>) (rev ladder)" using asc by (simp add: sorted_wrt_rev)
  then have desc: "sorted_wrt (\<ge>) (map value_c coins)"
    using post6 greedy_units_descending by simp
  show ?thesis
    using ret ml post1 post2 post3 post5 post6 post7 desc small
    by (intro exI[of _ coins]) simp
qed

text \<open>
  The theorem at the value \<open>150000000\<close> with the ladder of \<open>flowTypes.js\<close>: one coin of
  \<open>100000000\<close> and one of \<open>50000000\<close>, indices \<open>1\<close> and \<open>2\<close> from the start index \<open>0\<close>.
\<close>

theorem getMintCommitmentsForValue_greedy_witness:
  "\<exists>coins.
     getMintCommitmentsForValue denominations sample_sigmaMint 150000000 ''key'' 0 = Some (Inr coins)
   \<and> map value_c coins = [100000000, 50000000]
   \<and> map index coins = [1, 2]
   \<and> greedy_units (rev denominations) 150000000 = [100000000, 50000000]
   \<and> greedy_remainder (rev denominations) 150000000 = 0"
proof -
  have g: "greedy_units (rev denominations) 150000000 = [100000000, 50000000]"
    "greedy_remainder (rev denominations) 150000000 = 0"
    by (simp_all add: denominations_def)
  have h: "(0::int) \<le> 150000000" "denominations \<noteq> []"
    "\<forall>d \<in> set denominations. 0 < d \<and> d \<le> 9007199254740992"
    "sorted denominations"
    by (simp_all add: denominations_def)
  have b: "- 9007199254740992 \<le> (0::int)"
    "0 + int (length (greedy_units (rev denominations) 150000000)) \<le> 9007199254740992"
    by (simp_all add: g)
  from getMintCommitmentsForValue_greedy[OF h oracle_total_sample b, of "''key''"]
  obtain coins where c:
    "getMintCommitmentsForValue denominations sample_sigmaMint 150000000 ''key'' 0 = Some (Inr coins)"
    "map value_c coins = greedy_units (rev denominations) 150000000"
    by blast
  from c(1) have "coins = [\<lparr>value_c = 100000000, index = 1, commitment = ''c1'', serialNumber = ''s1'',
                 groupId = 0, isSpend = False, spendTxId = ''''\<rparr>,
                \<lparr>value_c = 50000000, index = 2, commitment = ''c2'', serialNumber = ''s2'',
                 groupId = 0, isSpend = False, spendTxId = ''''\<rparr>]"
    by (simp add: sample_mint_150)
  then show ?thesis using c g by simp
qed

text \<open>
  Claim C4 as stated fails. With the value \<open>0\<close> the loop ends with the final index \<open>3\<close>
  from the start index \<open>3\<close> and with \<open>8\<close> from \<open>8\<close>, and both calls return the same
  empty list: the final index is not returned. With the value \<open>-1\<close> no coin is made and the
  remainder is \<open>-1\<close>, which is negative. From the start index \<open>2^53 - 1\<close> the value
  \<open>150000000\<close> gives two coins that carry the same index, \<open>2^53\<close>, and the final index
  is \<open>2^53\<close>, not the start index plus two: the second increment is lost in the rounding.
\<close>

theorem getMintCommitmentsForValue_counterexample:
  "mintLadder sample_sigmaMint ''key'' (rev denominations) 0 3 [] = Some (Inr (0, 3, []))
   \<and> mintLadder sample_sigmaMint ''key'' (rev denominations) 0 8 [] = Some (Inr (0, 8, []))
   \<and> getMintCommitmentsForValue denominations sample_sigmaMint 0 ''key'' 3 = Some (Inr [])
   \<and> getMintCommitmentsForValue denominations sample_sigmaMint 0 ''key'' 8 = Some (Inr [])
   \<and> mintLadder sample_sigmaMint ''key'' (rev denominations) (- 1) 3 [] = Some (Inr (- 1, 3, []))
   \<and> getMintCommitmentsForValue denominations sample_sigmaMint (- 1) ''key'' 3 = Some (Inr [])
   \<and> mintLadder sample_sigmaMint ''key'' (rev denominations) 150000000 9007199254740991 [] =
       Some (Inr (0, 9007199254740992,
         [\<lparr>value_c = 100000000, index = 9007199254740992, commitment = ''cN'',
           serialNumber = ''sN'', groupId = 0, isSpend = False, spendTxId = ''''\<rparr>,
          \<lparr>value_c = 50000000, index = 9007199254740992, commitment = ''cN'',
           serialNumber = ''sN'', groupId = 0, isSpend = False, spendTxId = ''''\<rparr>]))"
  by (simp add: getMintCommitmentsForValue_def denominations_def mintWhile.simps
      createPrivateCoin_def sample_sigmaMint_def js_increment_exact js_increment_stuck
      to_double_exact)

text \<open>
  Claim C8 as stated fails: an index is a JavaScript number, and from the start index
  \<open>2^53\<close> (\<open>9007199254740992\<close>) the increment is lost in the rounding. The call for the
  value \<open>5000000\<close> returns one coin, and this coin carries the start index itself.
\<close>

theorem getMintCommitmentsForValue_index_after_start_counterexample:
  "getMintCommitmentsForValue denominations sample_sigmaMint 5000000 ''key'' 9007199254740992 =
     Some (Inr [\<lparr>value_c = 5000000, index = 9007199254740992, commitment = ''cN'',
                 serialNumber = ''sN'', groupId = 0, isSpend = False, spendTxId = ''''\<rparr>])"
  by (simp add: getMintCommitmentsForValue_def denominations_def mintWhile.simps
      createPrivateCoin_def sample_sigmaMint_def js_increment_stuck to_double_exact)

text \<open>
  Claim C8, as amended. Whenever \<open>getMintCommitmentsForValue\<close> is called with an integer
  start index of at least \<open>-2^53\<close> and returns a list of coins such that the start index plus
  the number of coins does not exceed \<open>2^53\<close>, every coin's index is greater than the start
  index, and the first coin carries \<open>startIndex + 1\<close>: the start index itself is given to
  no coin.
\<close>

theorem getMintCommitmentsForValue_index_after_start:
  assumes ret: "getMintCommitmentsForValue ladder io v privateKey startIndex = Some (Inr coins)"
    and lo: "- 9007199254740992 \<le> startIndex"
    and hi: "startIndex + int (length coins) \<le> 9007199254740992"
  shows "(\<forall>n < length coins. index (coins ! n) = startIndex + 1 + int n)
       \<and> (\<forall>c \<in> set coins. startIndex < index c)
       \<and> (coins \<noteq> [] \<longrightarrow> index (hd coins) = startIndex + 1)"
proof -
  from getMintCommitmentsForValue_Inr[OF ret] obtain v' i' where
    "mintLadder io privateKey (rev ladder) v startIndex [] = Some (Inr (v', i', coins))" by blast
  from ml_post_Nil[OF mintLadder_partial[OF this]]
  have raw: "\<forall>n < length coins. index (coins ! n) = (js_increment ^^ Suc n) startIndex"
    by blast
  have nth: "\<forall>n < length coins. index (coins ! n) = startIndex + 1 + int n"
  proof (intro allI impI)
    fix n assume n: "n < length coins"
    then have "startIndex + int (Suc n) \<le> 9007199254740992" using hi by simp
    from js_increment_funpow[OF lo this] raw n
    show "index (coins ! n) = startIndex + 1 + int n" by simp
  qed
  have "\<forall>c \<in> set coins. startIndex < index c"
  proof
    fix c assume "c \<in> set coins"
    then obtain n where "n < length coins" "coins ! n = c" by (auto simp: in_set_conv_nth)
    with nth show "startIndex < index c" by force
  qed
  moreover have "coins \<noteq> [] \<longrightarrow> index (hd coins) = startIndex + 1"
    using nth by (cases coins) auto
  ultimately show ?thesis using nth by blast
qed

theorem getMintCommitmentsForValue_index_after_start_witness:
  "\<exists>coins.
     getMintCommitmentsForValue denominations sample_sigmaMint 150000000 ''key'' 0 = Some (Inr coins)
   \<and> coins \<noteq> [] \<and> index (hd coins) = 1 \<and> 0 < index (hd coins)"
  using getMintCommitmentsForValue_index_after_start[OF sample_mint_150] sample_mint_150
  by simp

section \<open>Claims about restore\<close>

text \<open>
  Claim C1, as amended. The restore scan derives a candidate for the indices
  \<open>0, 1, 2, ...\<close> in turn and records exactly the candidates that some group holds. It
  goes on only while fewer than 100 candidates in a row were misses AND the index is below
  the number of published commitments, so it stops as soon as EITHER the last 100
  candidates were all misses (a hit resets the counter to 0) OR the candidate for the index
  equal to the number of published commitments has been scanned: in the first case the
  100 indices up to the last one are misses, in the second the last index is that number,
  and in both no 100 indices in a row before the last one were all misses. It never scans
  an index above the number of published commitments. If the oracle answers, the scan
  returns.
\<close>

theorem restore_loop_stops:
  "(oracle_total io dataKey \<longrightarrow>
      (\<exists>counter idx mintData.
         restore_loop io dataKey used groups (total_commitments groups) 0 (- 1) [] =
           Inr (counter, idx, mintData)))
   \<and> (\<forall>counter idx mintData.
        restore_loop io dataKey used groups (total_commitments groups) 0 (- 1) [] =
          Inr (counter, idx, mintData) \<longrightarrow>
        (counter = 101 \<and> idx \<le> total_commitments groups
           \<and> (\<forall>j. idx - 100 < j \<and> j \<le> idx \<longrightarrow> scan_hit io dataKey used groups j = None)
           \<and> (\<forall>j. 99 \<le> j \<and> j < idx \<longrightarrow>
                 (\<exists>k. j - 100 < k \<and> k \<le> j \<and> scan_hit io dataKey used groups k \<noteq> None))
           \<and> mintData = List.map_filter (scan_hit io dataKey used groups) [0..idx])
        \<or> (counter \<le> 100 \<and> idx = total_commitments groups + 1
           \<and> (\<forall>j. total_commitments groups - (counter - 1) < j \<and> j \<le> total_commitments groups
                  \<longrightarrow> scan_hit io dataKey used groups j = None)
           \<and> (\<forall>j. 99 \<le> j \<and> j < total_commitments groups \<longrightarrow>
                 (\<exists>k. j - 100 < k \<and> k \<le> j \<and> scan_hit io dataKey used groups k \<noteq> None))
           \<and> mintData =
               List.map_filter (scan_hit io dataKey used groups) [0..total_commitments groups]))"
proof (intro conjI impI allI)
  assume "oracle_total io dataKey"
  from restore_loop_returns[OF this]
  show "\<exists>counter idx mintData.
         restore_loop io dataKey used groups (total_commitments groups) 0 (- 1) [] =
           Inr (counter, idx, mintData)" .
next
  fix counter idx mintData
  let ?cc = "total_commitments groups" and ?hit = "scan_hit io dataKey used groups"
  assume run: "restore_loop io dataKey used groups ?cc 0 (- 1) [] = Inr (counter, idx, mintData)"
  note early = restore_scan_no_early_stop[OF run]
  from restore_scan_from_start[OF run]
  show "(counter = 101 \<and> idx \<le> ?cc
           \<and> (\<forall>j. idx - 100 < j \<and> j \<le> idx \<longrightarrow> ?hit j = None)
           \<and> (\<forall>j. 99 \<le> j \<and> j < idx \<longrightarrow> (\<exists>k. j - 100 < k \<and> k \<le> j \<and> ?hit k \<noteq> None))
           \<and> mintData = List.map_filter ?hit [0..idx])
        \<or> (counter \<le> 100 \<and> idx = ?cc + 1
           \<and> (\<forall>j. ?cc - (counter - 1) < j \<and> j \<le> ?cc \<longrightarrow> ?hit j = None)
           \<and> (\<forall>j. 99 \<le> j \<and> j < ?cc \<longrightarrow> (\<exists>k. j - 100 < k \<and> k \<le> j \<and> ?hit k \<noteq> None))
           \<and> mintData = List.map_filter ?hit [0..?cc])"
  proof (elim disjE conjE)
    assume a: "counter = 101" "idx \<le> ?cc" "\<forall>j. idx - 100 < j \<and> j \<le> idx \<longrightarrow> ?hit j = None"
      "mintData = List.map_filter ?hit [0..idx]"
    from early a(1)
    have "\<forall>j. 99 \<le> j \<and> j < idx \<longrightarrow> (\<exists>k. j - 100 < k \<and> k \<le> j \<and> ?hit k \<noteq> None)" by simp
    with a show ?thesis by blast
  next
    assume a: "counter \<le> 100" "idx = ?cc + 1"
      "\<forall>j. ?cc - (counter - 1) < j \<and> j \<le> ?cc \<longrightarrow> ?hit j = None"
      "mintData = List.map_filter ?hit [0..?cc]"
    from early a(1,2)
    have "\<forall>j. 99 \<le> j \<and> j < ?cc \<longrightarrow> (\<exists>k. j - 100 < k \<and> k \<le> j \<and> ?hit k \<noteq> None)" by simp
    with a show ?thesis by blast
  qed
qed

theorem restore_loop_stops_witness:
  "oracle_total sample_sigmaMint ''key''
   \<and> restore_loop sample_sigmaMint ''key'' [''s1''] sample_groups (total_commitments sample_groups)
        0 (- 1) [] = Inr (2, 3, [sample_restored_coin])
   \<and> total_commitments sample_groups + 1 = 3
   \<and> [sample_restored_coin] =
        List.map_filter (scan_hit sample_sigmaMint ''key'' [''s1''] sample_groups)
          [0..total_commitments sample_groups]"
  using restore_loop_stops[of sample_sigmaMint "''key''" "[''s1'']" sample_groups]
    sample_scan oracle_total_sample[of "''key''"]
  by (simp add: sample_total_commitments)

text \<open>
  Claim C1 as stated fails in both directions. With two published commitments, one of
  them the wallet's coin of index \<open>1\<close>, the scan stops after the index \<open>2\<close>, one miss after
  the last known commitment, not one hundred. With a count of \<open>1000\<close> and no hit, it
  stops after the index \<open>99\<close>, far below the count.
\<close>

theorem restore_loop_stops_counterexample:
  "total_commitments sample_groups = 2
   \<and> restore_loop sample_sigmaMint ''key'' [''s1''] sample_groups 2 0 (- 1) [] =
       Inr (2, 3, [sample_restored_coin])
   \<and> restore_loop sample_sigmaMint ''key'' [] [] 1000 0 (- 1) [] = Inr (101, 99, [])"
  by (simp add: sample_total_commitments sample_scan)
     (simp add: restore_loop.simps createPrivateCoin_def sample_sigmaMint_def)

text \<open>
  Claim C7. In a run of restore that starts without the marker, the marker is present
  afterwards only if the rebuilt coin set was persisted first and both writes succeeded,
  and then restore reports \<open>true\<close>. If the write of the coin set or of the marker fails,
  the restore file is untouched, the marker is absent afterwards, and restore reports
  \<open>false\<close> (or has already been rejected before any write), so it runs again on the
  next load.
\<close>

theorem restore_marker_after_persist:
  assumes run: "restore w io dataKey st = (r, st')" and nr: "\<not> restored (restoreFile st)"
  shows "(restored (restoreFile st') \<longrightarrow>
            r = Inr True \<and> writeMintedCoins_fails w = None \<and> setText_fails w = None
          \<and> (\<exists>used groups counter idx mintData.
                 retrieveUsedCoinSerials w = Inr used
               \<and> restore_loop io dataKey (serials used) groups (total_commitments groups) 0 (- 1) [] =
                   Inr (counter, idx, mintData)
               \<and> mintFile st' = Some mintData))
       \<and> (writeMintedCoins_fails w \<noteq> None \<or> setText_fails w \<noteq> None \<longrightarrow>
            \<not> restored (restoreFile st') \<and> restoreFile st' = restoreFile st
          \<and> (r = Inr False \<or> ((\<exists>e. r = Inl e) \<and> st' = st)))
       \<and> (r = Inr True \<longrightarrow> restored (restoreFile st'))"
  using restore_outcome[OF run nr] nr
  by (elim disjE exE conjE) auto

theorem restore_marker_after_persist_witness:
  "restore failing_setText_World sample_sigmaMint ''key'' empty_Storage =
     (Inr False, \<lparr>mintedCoins = [sample_restored_coin], mintFile = Some [sample_restored_coin],
                  restoreFile = None\<rparr>)
   \<and> setText_fails failing_setText_World \<noteq> None
   \<and> \<not> restored (restoreFile empty_Storage)
   \<and> \<not> restored (restoreFile \<lparr>mintedCoins = [sample_restored_coin],
                                 mintFile = Some [sample_restored_coin], restoreFile = None\<rparr>)"
proof -
  have nr: "\<not> restored (restoreFile empty_Storage)" by (simp add: empty_Storage_def)
  from restore_marker_after_persist[OF sample_restore_setText_fails nr]
  show ?thesis using sample_restore_setText_fails nr
    by (simp add: failing_setText_World_def)
qed

text \<open>
  Claim C10. Whatever coin set restore persists, every coin in it has an empty
  \<open>serialNumber\<close> and an empty \<open>spendTxId\<close>, also a coin marked as spent because its
  serial is among the published used serials (the sample run persists such a coin).
\<close>

theorem restore_persists_blank_serials:
  assumes run: "restore w io dataKey st = (r, st')" and nr: "\<not> restored (restoreFile st)"
  shows "(st' = st
          \<or> (\<exists>coins. mintFile st' = Some coins \<and> mintedCoins st' = coins
               \<and> (\<forall>coin \<in> set coins. serialNumber coin = '''' \<and> spendTxId coin = '''')))
       \<and> (r = Inr True \<longrightarrow>
            (\<exists>coins. mintFile st' = Some coins \<and> mintedCoins st' = coins
               \<and> (\<forall>coin \<in> set coins. serialNumber coin = '''' \<and> spendTxId coin = '''')))"
  using restore_outcome[OF run nr] restore_loop_fields
  by (elim disjE exE conjE) auto

theorem restore_persists_blank_serials_witness:
  "restore sample_World sample_sigmaMint ''key'' empty_Storage =
     (Inr True, \<lparr>mintedCoins = [sample_restored_coin], mintFile = Some [sample_restored_coin],
                 restoreFile = Some (RestoredFlag True)\<rparr>)
   \<and> isSpend sample_restored_coin
   \<and> serialNumber sample_restored_coin = '''' \<and> spendTxId sample_restored_coin = ''''"
proof -
  have nr: "\<not> restored (restoreFile empty_Storage)" by (simp add: empty_Storage_def)
  from restore_persists_blank_serials[OF sample_restore nr]
  show ?thesis using sample_restore by (simp add: sample_restored_coin_def)
qed

section \<open>Claims about the group id\<close>

text \<open>
  Claim C2, as amended. The group metadata refresh changes nothing of a stored coin but
  its \<open>groupId\<close>, and it never sets a \<open>groupId\<close> to a new value other than \<open>-1\<close> unless the
  chain reported, for the coin's commitment, that group and a mint height at least 5
  below the current height. Coin creation writes the \<open>groupId\<close> \<open>0\<close>. The restore scan
  writes \<open>coinInfo.id\<close>, the latest group id of the first entry of
  \<open>retrieveLatestCoinIds\<close> whose merged anonymity set (the commitments of the groups
  \<open>1, ..., id\<close> of the entry's denomination, concatenated) holds the commitment; this
  need not be the id of the group that holds the commitment. Neither coin creation nor
  the restore scan looks at a height.
\<close>

theorem groupId_writes:
  "(\<forall>r st'. getMintMetadataLoop w st = (r, st') \<longrightarrow>
      length (mintedCoins st') = length (mintedCoins st)
    \<and> (\<forall>n < length (mintedCoins st).
          mintedCoins st' ! n = (mintedCoins st ! n)\<lparr>groupId := groupId (mintedCoins st' ! n)\<rparr>
        \<and> (groupId (mintedCoins st' ! n) \<noteq> groupId (mintedCoins st ! n)
             \<and> groupId (mintedCoins st' ! n) \<noteq> - 1 \<longrightarrow>
            (\<exists>retrieved data.
               retrieveMintMetadata w (mintsToRetrieve (mintedCoins st)) = Inr retrieved
             \<and> data \<in> set retrieved
             \<and> pubcoin data = commitment (mintedCoins st ! n)
             \<and> groupId_m data = groupId (mintedCoins st' ! n)
             \<and> 5 \<le> getBlockHeight w - height data))))
   \<and> (\<forall>c. createPrivateCoin io v k i = Inr c \<longrightarrow> groupId c = 0)
   \<and> (\<forall>c. scan_hit io k used groups j = Some c \<longrightarrow>
        (\<exists>coin coinInfo.
           createPrivateCoin io 100000000 k j = Inr coin
         \<and> find (\<lambda>g. commitment coin \<in> set (anonymitySet g)) groups = Some coinInfo
         \<and> coinInfo \<in> set groups
         \<and> groupId c = id_g coinInfo))
   \<and> (\<forall>r st'. restore w io k st = (r, st') \<longrightarrow>
        st' = st
      \<or> (\<exists>latest. retrieveLatestCoinIds w = Inr latest
           \<and> (\<forall>c \<in> set (mintedCoins st').
                \<exists>coin coinInfo.
                  createPrivateCoin io 100000000 k (index c) = Inr coin
                \<and> commitment c = commitment coin
                \<and> find (\<lambda>g. commitment coin \<in> set (anonymitySet g)) (merged_groups w latest)
                    = Some coinInfo
                \<and> groupId c = id_g coinInfo)))
   \<and> (\<forall>latest. map id_g (merged_groups w latest) = map id_g latest
               \<and> map denom (merged_groups w latest) = map denom latest)"
proof (intro conjI allI impI)
  fix latest
  show "map id_g (merged_groups w latest) = map id_g latest"
    and "map denom (merged_groups w latest) = map denom latest"
    by (rule merged_groups_id)+
next
  fix c assume "createPrivateCoin io v k i = Inr c"
  from createPrivateCoin_fields[OF this] show "groupId c = 0" by simp
next
  fix c assume "scan_hit io k used groups j = Some c"
  from scan_hit_find[OF this]
  show "\<exists>coin coinInfo.
           createPrivateCoin io 100000000 k j = Inr coin
         \<and> find (\<lambda>g. commitment coin \<in> set (anonymitySet g)) groups = Some coinInfo
         \<and> coinInfo \<in> set groups
         \<and> groupId c = id_g coinInfo"
    by blast
next
  fix r st' assume "restore w io k st = (r, st')"
  from restore_groupIds[OF this]
  show "st' = st
      \<or> (\<exists>latest. retrieveLatestCoinIds w = Inr latest
           \<and> (\<forall>c \<in> set (mintedCoins st').
                \<exists>coin coinInfo.
                  createPrivateCoin io 100000000 k (index c) = Inr coin
                \<and> commitment c = commitment coin
                \<and> find (\<lambda>g. commitment coin \<in> set (anonymitySet g)) (merged_groups w latest)
                    = Some coinInfo
                \<and> groupId c = id_g coinInfo))" .
next
  fix r st' assume run: "getMintMetadataLoop w st = (r, st')"
  from getMintMetadataLoop_coins[OF run]
  show "length (mintedCoins st') = length (mintedCoins st)"
    using updateGroupIds_nth by fastforce
next
  fix r st' n
  assume run: "getMintMetadataLoop w st = (r, st')" and n: "n < length (mintedCoins st)"
  let ?old = "mintedCoins st ! n" and ?new = "mintedCoins st' ! n"
  from getMintMetadataLoop_coins[OF run]
  have cases: "?new = ?old
     \<or> (\<exists>retrieved data.
           retrieveMintMetadata w (mintsToRetrieve (mintedCoins st)) = Inr retrieved
         \<and> data \<in> set retrieved
         \<and> mintsToUpdate (mintedCoins st) 0 Map.empty (pubcoin data) = Some n
         \<and> ?new = ?old\<lparr>groupId := (if getBlockHeight w - height data \<ge> 5
                                      then groupId_m data else - 1)\<rparr>)"
  proof
    assume "mintedCoins st' = mintedCoins st"
    then show ?thesis by simp
  next
    assume "\<exists>retrieved err.
             retrieveMintMetadata w (mintsToRetrieve (mintedCoins st)) = Inr retrieved
           \<and> updateGroupIds (getBlockHeight w) (mintsToUpdate (mintedCoins st) 0 Map.empty)
                 retrieved (mintedCoins st) = (err, mintedCoins st')"
    then obtain retrieved err where
      a: "retrieveMintMetadata w (mintsToRetrieve (mintedCoins st)) = Inr retrieved"
      and b: "updateGroupIds (getBlockHeight w) (mintsToUpdate (mintedCoins st) 0 Map.empty)
                 retrieved (mintedCoins st) = (err, mintedCoins st')" by blast
    from updateGroupIds_nth[OF b] n a show ?thesis by blast
  qed
  show "?new = ?old\<lparr>groupId := groupId ?new\<rparr>"
    using cases by auto
  show "\<exists>retrieved data.
               retrieveMintMetadata w (mintsToRetrieve (mintedCoins st)) = Inr retrieved
             \<and> data \<in> set retrieved
             \<and> pubcoin data = commitment ?old
             \<and> groupId_m data = groupId ?new
             \<and> 5 \<le> getBlockHeight w - height data"
    if ch: "groupId ?new \<noteq> groupId ?old \<and> groupId ?new \<noteq> - 1"
  proof -
    from cases ch obtain retrieved data where d:
      "retrieveMintMetadata w (mintsToRetrieve (mintedCoins st)) = Inr retrieved"
      "data \<in> set retrieved"
      "mintsToUpdate (mintedCoins st) 0 Map.empty (pubcoin data) = Some n"
      "?new = ?old\<lparr>groupId := (if getBlockHeight w - height data \<ge> 5
                                      then groupId_m data else - 1)\<rparr>"
      by auto
    from d(4) ch have "5 \<le> getBlockHeight w - height data" "groupId_m data = groupId ?new"
      by (auto split: if_splits)
    moreover from mintsToUpdate_empty[OF d(3)] have "pubcoin data = commitment ?old" by simp
    ultimately show ?thesis using d(1,2) by blast
  qed
qed

text \<open>
  The theorem on the sample chain: the refresh leaves \<open>c1\<close>, whose mint is one block
  deep, at \<open>-1\<close> and gives \<open>c2\<close>, ten blocks deep, its group \<open>4\<close>. On the chain with two
  groups restore stores \<open>c1\<close> with the \<open>groupId\<close> \<open>2\<close>, the latest id, although group \<open>1\<close>
  holds the commitment and group \<open>2\<close> does not.
\<close>

theorem groupId_writes_witness:
  "getMintMetadataLoop sample_World pending_Storage =
     (Inr (), \<lparr>mintedCoins = refreshed_coins, mintFile = Some refreshed_coins,
               restoreFile = Some (RestoredFlag True)\<rparr>)
   \<and> groupId (refreshed_coins ! 0) = - 1
   \<and> groupId (refreshed_coins ! 1) = 4
   \<and> 5 \<le> getBlockHeight sample_World - 90
   \<and> restore two_group_World sample_sigmaMint ''key'' empty_Storage =
       (Inr True, \<lparr>mintedCoins = [two_group_restored_coin],
                   mintFile = Some [two_group_restored_coin],
                   restoreFile = Some (RestoredFlag True)\<rparr>)
   \<and> groupId two_group_restored_coin = 2
   \<and> commitment two_group_restored_coin = ''c1''
   \<and> retrieveAnonymitySet two_group_World 100000000 1 =
       Inr \<lparr>blockHash = ''b1'', serializedCoins = [''c1'']\<rparr>
   \<and> retrieveAnonymitySet two_group_World 100000000 2 =
       Inr \<lparr>blockHash = ''b2'', serializedCoins = [''zz'']\<rparr>
   \<and> merged_groups two_group_World [\<lparr>denom = 100000000, id_g = 2, anonymitySet = []\<rparr>] =
       [\<lparr>denom = 100000000, id_g = 2, anonymitySet = [''c1'', ''zz'']\<rparr>]"
  using groupId_writes[of sample_World pending_Storage] sample_refresh two_group_restore
  by (simp add: refreshed_coins_def sample_World_def two_group_World_def
      two_group_restored_coin_def merged_groups_def merged_sets_def upto.simps)

text \<open>
  Claim C2 as stated fails for two of the three writers. A created coin has the \<open>groupId\<close>
  \<open>0\<close>. On the sample chain, whose height is \<open>100\<close>, restore persists the coin \<open>c1\<close> with
  the \<open>groupId\<close> \<open>1\<close> although its mint, at height \<open>99\<close>, is one block deep.
\<close>

theorem groupId_writes_counterexample:
  "createPrivateCoin sample_sigmaMint 100000000 ''key'' 1 =
     Inr \<lparr>value_c = 100000000, index = 1, commitment = ''c1'', serialNumber = ''s1'',
          groupId = 0, isSpend = False, spendTxId = ''''\<rparr>
   \<and> restore sample_World sample_sigmaMint ''key'' empty_Storage =
       (Inr True, \<lparr>mintedCoins = [sample_restored_coin], mintFile = Some [sample_restored_coin],
                   restoreFile = Some (RestoredFlag True)\<rparr>)
   \<and> groupId sample_restored_coin = 1
   \<and> retrieveMintMetadata sample_World [(100000000, ''c1'')] =
       Inr [\<lparr>pubcoin = ''c1'', groupId_m = 1, height = 99\<rparr>]
   \<and> getBlockHeight sample_World - 99 = 1"
  by (simp add: sample_restore)
     (simp add: createPrivateCoin_def sample_sigmaMint_def sample_restored_coin_def sample_World_def)

section \<open>Claims about minting\<close>

text \<open>
  Claim C9. Every coin that a successful \<open>makeMint\<close> puts into \<open>mintsForSave\<close> has the
  \<open>groupId\<close> \<open>-1\<close>, is not spent and has an empty \<open>spendTxId\<close>: the coins are those made
  for the last spend target, each overwritten with these three values, whatever
  \<open>createPrivateCoin\<close> had put there (it puts the \<open>groupId\<close> \<open>0\<close>).
\<close>

theorem makeMint_mints_not_yet_grouped:
  assumes "makeMint eng io info opts = Some (Inr t)"
  shows "(\<forall>coin \<in> set (mintsForSave t).
            groupId coin = - 1 \<and> \<not> isSpend coin \<and> spendTxId coin = '''')
       \<and> (spendTargets info \<noteq> [] \<longrightarrow>
            (\<exists>ms. getMintCommitmentsForValue denominations io (amountOf (last (spendTargets info)))
                     (dataKey_e eng) (getLastPrivateCoinIndex eng) = Some (Inr ms)
                 \<and> mintsForSave t =
                     map (\<lambda>coin. coin\<lparr>groupId := - 1, isSpend := False, spendTxId := ''''\<rparr>) ms))"
proof -
  from makeMint_mintsForSave[OF assms] obtain outs where
    "makeMint_targets io (dataKey_e eng) (getLastPrivateCoinIndex eng)
             (spendTargets info) [] [] = Some (Inr (outs, mintsForSave t))" by blast
  from makeMint_targets_mints[OF this] show ?thesis by auto
qed

theorem makeMint_mints_not_yet_grouped_witness:
  "makeMint sample_Engine sample_sigmaMint (sample_target 10000000) default_TxOptions =
     Some (Inr \<lparr>txJson = \<lparr>outputs_m = [\<lparr>address_m = None, script_m = ''c3c1'', value_m = 10000000\<rparr>],
                          fee_m = 1000\<rparr>,
                isSpend_tx = False, mintsForSave = [sample_minted_coin], networkFee = 1000\<rparr>)
   \<and> groupId sample_minted_coin = - 1 \<and> \<not> isSpend sample_minted_coin
   \<and> spendTxId sample_minted_coin = ''''"
  using makeMint_mints_not_yet_grouped[OF sample_makeMint] sample_makeMint
  by (simp add: sample_minted_coin_def)

text \<open>
  Claim C5, as amended. \<open>mint\<close>, called with at least one spend target as the periodic
  loop calls it, always returns and lets no error out. The amounts it tries go down by
  the smallest denomination from one attempt to the next. An attempt is followed by
  another one exactly when it failed with the message \<open>InsufficientFundsError\<close> while its
  amount was above the smallest denomination, and this is repeated as often as it
  happens, not once. An attempt that fails with any other message is the last one, and
  \<open>mint\<close> then ends without signing, broadcasting or saving.
\<close>

theorem mint_retries_until_funded:
  assumes ne: "spendTargets info \<noteq> []"
  shows "\<exists>tried ending.
       mint eng io info = Some (Inr (tried, ending))
     \<and> tried \<noteq> []
     \<and> (\<forall>n < length tried. tried ! n = firstAmount info - int n * (denominations ! 0))
     \<and> (\<forall>n. Suc n < length tried \<longrightarrow>
           (\<exists>e. makeMint eng io ((lowerFirstAmount ^^ n) info) default_TxOptions = Some (Inl e)
               \<and> message e = ''InsufficientFundsError'' \<and> denominations ! 0 < tried ! n))
     \<and> (\<forall>n < length tried. \<forall>e.
           makeMint eng io ((lowerFirstAmount ^^ n) info) default_TxOptions = Some (Inl e) \<longrightarrow>
           (message e = ''InsufficientFundsError'' \<and> denominations ! 0 < tried ! n
              \<longrightarrow> Suc n < length tried)
         \<and> (message e \<noteq> ''InsufficientFundsError''
              \<longrightarrow> Suc n = length tried \<and> ending = Abandoned))"
proof -
  have "\<forall>i. makeMint eng io i default_TxOptions \<noteq> None"
    using makeMint_not_None by blast
  from mint_with_retries[OF ne this, of eng] show ?thesis
    unfolding mint_def .
qed

theorem mint_retries_until_funded_witness:
  "mint sample_Engine sample_sigmaMint (sample_target 20000000) =
     Some (Inr ([20000000, 15000000, 10000000], Saved))
   \<and> spendTargets (sample_target 20000000) \<noteq> []"
proof -
  have ne: "spendTargets (sample_target 20000000) \<noteq> []" by (simp add: sample_target_def)
  from mint_retries_until_funded[OF ne, of sample_Engine sample_sigmaMint]
  show ?thesis using sample_mint ne by simp
qed

text \<open>
  Claim C5 as stated fails where it says "once". On the sample engine, which cannot fund
  more than \<open>10000000\<close>, minting \<open>20000000\<close> fails for lack of funds, is tried again with
  \<open>15000000\<close>, fails again, and is tried a third time with \<open>10000000\<close>.
\<close>

theorem mint_retries_counterexample:
  "mint sample_Engine sample_sigmaMint (sample_target 20000000) =
     Some (Inr ([20000000, 15000000, 10000000], Saved))
   \<and> makeMint sample_Engine sample_sigmaMint (sample_target 20000000) default_TxOptions =
       Some (Inl (Error ''InsufficientFundsError''))
   \<and> makeMint sample_Engine sample_sigmaMint (sample_target 15000000) default_TxOptions =
       Some (Inl (Error ''InsufficientFundsError''))"
  by (simp add: sample_mint sample_makeMint_15)
     (simp add: makeMint_def makeMint_try_def makeMint_catch_def sample_Engine_def
      sample_target_def default_TxOptions_def amountOf_def sumUtxos_def js_nth_def
      getMintCommitmentsForValue_def denominations_def mintWhile.simps createPrivateCoin_def
      js_increment_exact to_double_exact
      sample_sigmaMint_def)

section \<open>Claims about spending\<close>

text \<open>
  Claim C3, as amended. Spend selection treats as approved exactly the stored coins that
  are not spent and whose \<open>groupId\<close> is neither \<open>-1\<close> nor \<open>0\<close>. Whatever it returns is a
  non-empty sub-collection of the approved coins whose values sum to at least the target,
  so it holds no spent coin and no coin with the \<open>groupId\<close> \<open>-1\<close> (or \<open>0\<close>). When coin values
  are not negative and some non-empty sub-collection of the approved coins covers the
  target, a selection is returned; when none does, the result is the error
  \<open>InsufficientFundsError\<close>. (The choice among the approved coins is made by
  \<open>getMintsToSpend\<close>, modelled from the specification.)
\<close>

theorem makeSpend_selection:
  "(\<forall>c. c \<in> set (approvedMints mintData) \<longleftrightarrow>
          c \<in> set mintData \<and> groupId c \<noteq> 0 \<and> groupId c \<noteq> - 1 \<and> \<not> isSpend c)
   \<and> (\<forall>sel. makeSpend_mintsToBeSpend mintData info opts = Inr sel \<longrightarrow>
          sel \<noteq> [] \<and> mset sel \<subseteq># mset (approvedMints mintData)
        \<and> sum_list (map amountOf (spendTargets info)) \<le> sum_list (map value_c sel)
        \<and> (\<forall>c \<in> set sel. \<not> isSpend c \<and> groupId c \<noteq> - 1 \<and> groupId c \<noteq> 0))
   \<and> ((CPFP opts \<noteq> '''' \<or> spendTargets info \<noteq> []) \<longrightarrow>
        (\<forall>c \<in> set mintData. 0 \<le> value_c c) \<longrightarrow>
        (\<exists>sub. sub \<noteq> [] \<and> mset sub \<subseteq># mset (approvedMints mintData)
              \<and> sum_list (map amountOf (spendTargets info)) \<le> sum_list (map value_c sub)) \<longrightarrow>
        (\<exists>sel. makeSpend_mintsToBeSpend mintData info opts = Inr sel))
   \<and> ((CPFP opts \<noteq> '''' \<or> spendTargets info \<noteq> []) \<longrightarrow>
        \<not> (\<exists>sub. sub \<noteq> [] \<and> mset sub \<subseteq># mset (approvedMints mintData)
              \<and> sum_list (map amountOf (spendTargets info)) \<le> sum_list (map value_c sub)) \<longrightarrow>
        makeSpend_mintsToBeSpend mintData info opts = Inl (Error ''InsufficientFundsError''))"
proof -
  let ?total = "sum_list (map amountOf (spendTargets info))"
  let ?approved = "approvedMints mintData"
  have a: "\<forall>c. c \<in> set ?approved \<longleftrightarrow>
          c \<in> set mintData \<and> groupId c \<noteq> 0 \<and> groupId c \<noteq> - 1 \<and> \<not> isSpend c"
    by (auto simp: approvedMints_def)
  have b: "\<forall>sel. makeSpend_mintsToBeSpend mintData info opts = Inr sel \<longrightarrow>
          sel \<noteq> [] \<and> mset sel \<subseteq># mset ?approved
        \<and> ?total \<le> sum_list (map value_c sel)
        \<and> (\<forall>c \<in> set sel. \<not> isSpend c \<and> groupId c \<noteq> - 1 \<and> groupId c \<noteq> 0)"
  proof (intro allI impI)
    fix sel assume "makeSpend_mintsToBeSpend mintData info opts = Inr sel"
    from makeSpend_Inr[OF this] have ne: "sel \<noteq> []"
      and sel: "sel = getMintsToSpend ?approved ?total" by blast+
    from ne sel have "getMintsToSpend ?approved ?total \<noteq> []" by simp
    from getMintsToSpend_sound[OF this] sel
    have s: "mset sel \<subseteq># mset ?approved" "?total \<le> sum_list (map value_c sel)" by simp_all
    from s(1) have "set sel \<subseteq> set ?approved" by (metis set_mset_mono set_mset_mset)
    with a have "\<forall>c \<in> set sel. \<not> isSpend c \<and> groupId c \<noteq> - 1 \<and> groupId c \<noteq> 0" by blast
    with ne s show "sel \<noteq> [] \<and> mset sel \<subseteq># mset ?approved
        \<and> ?total \<le> sum_list (map value_c sel)
        \<and> (\<forall>c \<in> set sel. \<not> isSpend c \<and> groupId c \<noteq> - 1 \<and> groupId c \<noteq> 0)" by blast
  qed
  have c: "(CPFP opts \<noteq> '''' \<or> spendTargets info \<noteq> []) \<longrightarrow>
        (\<forall>c \<in> set mintData. 0 \<le> value_c c) \<longrightarrow>
        (\<exists>sub. sub \<noteq> [] \<and> mset sub \<subseteq># mset ?approved
              \<and> ?total \<le> sum_list (map value_c sub)) \<longrightarrow>
        (\<exists>sel. makeSpend_mintsToBeSpend mintData info opts = Inr sel)"
  proof (intro impI)
    assume g: "CPFP opts \<noteq> '''' \<or> spendTargets info \<noteq> []"
      and nn: "\<forall>c \<in> set mintData. 0 \<le> value_c c"
      and ex: "\<exists>sub. sub \<noteq> [] \<and> mset sub \<subseteq># mset ?approved
              \<and> ?total \<le> sum_list (map value_c sub)"
    from ex obtain sub where sub: "sub \<noteq> []" "mset sub \<subseteq># mset ?approved"
      "?total \<le> sum_list (map value_c sub)" by blast
    from nn a have "\<forall>c \<in> set ?approved. 0 \<le> value_c c" by blast
    from getMintsToSpend_complete[OF this sub] have "getMintsToSpend ?approved ?total \<noteq> []" .
    with makeSpend_cases[OF g, of mintData]
    show "\<exists>sel. makeSpend_mintsToBeSpend mintData info opts = Inr sel" by simp
  qed
  have d: "(CPFP opts \<noteq> '''' \<or> spendTargets info \<noteq> []) \<longrightarrow>
        \<not> (\<exists>sub. sub \<noteq> [] \<and> mset sub \<subseteq># mset ?approved
              \<and> ?total \<le> sum_list (map value_c sub)) \<longrightarrow>
        makeSpend_mintsToBeSpend mintData info opts = Inl (Error ''InsufficientFundsError'')"
  proof (intro impI)
    assume g: "CPFP opts \<noteq> '''' \<or> spendTargets info \<noteq> []"
      and no: "\<not> (\<exists>sub. sub \<noteq> [] \<and> mset sub \<subseteq># mset ?approved
              \<and> ?total \<le> sum_list (map value_c sub))"
    have "getMintsToSpend ?approved ?total = []"
    proof (rule ccontr)
      assume "getMintsToSpend ?approved ?total \<noteq> []"
      with getMintsToSpend_sound[OF this] no show False by blast
    qed
    with makeSpend_cases[OF g, of mintData]
    show "makeSpend_mintsToBeSpend mintData info opts = Inl (Error ''InsufficientFundsError'')"
      by simp
  qed
  from a b c d show ?thesis by blast
qed

theorem makeSpend_selection_witness:
  "makeSpend_mintsToBeSpend [coin_A, coin_B, coin_C, coin_D, coin_E] (sample_target 350)
     default_TxOptions = Inr [coin_E, coin_A]
   \<and> sum_list (map amountOf (spendTargets (sample_target 350))) = 350
   \<and> sum_list (map value_c [coin_E, coin_A]) = 400
   \<and> sum_list (map amountOf (spendTargets (sample_target 350)))
        \<le> sum_list (map value_c [coin_E, coin_A])"
proof -
  note sel = sample_selection
  note b = makeSpend_selection[of "[coin_A, coin_B, coin_C, coin_D, coin_E]" "sample_target 350"
      default_TxOptions, THEN conjunct2, THEN conjunct1, rule_format, OF sel]
  from b have "sum_list (map amountOf (spendTargets (sample_target 350)))
        \<le> sum_list (map value_c [coin_E, coin_A])" by blast
  moreover have "sum_list (map amountOf (spendTargets (sample_target 350))) = 350"
    by (simp add: sample_target_def amountOf_def)
  moreover have "sum_list (map value_c [coin_E, coin_A]) = 400"
    by (simp add: coin_A_def coin_E_def)
  ultimately show ?thesis using sel by blast
qed

text \<open>
  Claim C3 as stated fails at a coin whose \<open>groupId\<close> is \<open>0\<close>: it is not spent and its
  \<open>groupId\<close> is not \<open>-1\<close>, yet it is not approved, and a spend of \<open>100\<close> from a store that
  holds only this coin of value \<open>500\<close> ends in \<open>InsufficientFundsError\<close>.
\<close>

theorem makeSpend_selection_counterexample:
  "groupId coin_B \<noteq> - 1 \<and> \<not> isSpend coin_B \<and> value_c coin_B = 500
   \<and> sum_list (map amountOf (spendTargets (sample_target 100))) = 100
   \<and> approvedMints [coin_B] = []
   \<and> makeSpend_mintsToBeSpend [coin_B] (sample_target 100) default_TxOptions =
       Inl (Error ''InsufficientFundsError'')"
  by (simp add: sample_selection_B)
     (simp add: coin_B_def approvedMints_def sample_target_def amountOf_def)

section \<open>Claims about the transaction builder\<close>

text \<open>
  Claim C6 does not hold of the code. The parent transaction has the outputs \<open>1000\<close> and
  \<open>5000\<close>, offered in this order as unspent outputs of the height \<open>100\<close>, the limit is
  \<open>1\<close>, no output is given and the change address is one that the address parser
  accepts. The comparator parses the output objects instead of their values, the sort
  therefore changes nothing, and the builder keeps the first output, of value \<open>1000\<close>,
  not the largest one: the one coin offered for funding is that output, and the single
  output, to the change address, carries its value, from which the fee is to be
  subtracted.
\<close>

theorem createTX_CPFP_keeps_first_output:
  "createTX sample_toBcoinFormat [utxo_small, utxo_large] [] ''change'' cpfp_TxOptions =
     Inr \<lparr>fund_outputs = [\<lparr>address = ''change'', value_s = 1000\<rparr>],
          fund_coins = [\<lparr>coin_txid = ''parent'', coin_index = 0, coin_height = 100,
                         coin_value = 1000\<rparr>],
          fund_changeAddress = ''change'', fund_subtractFee = True\<rparr>"
  by (simp add: createTX_def createTX_fund_def Coin_fromTX_def js_sort_cpfp js_slice0_def
      sumUtxos_def js_nth_def cpfp_TxOptions_def utxo_small_def utxo_large_def parent_tx_def
      sample_toBcoinFormat_def)

end
